theory Spec2Isabelle
  imports Complex_Main
begin

section \<open>The minichart query builder: selection to predicate\<close>

text \<open>
  This theory embeds the query-builder mixin of the minicharts
  (\<^verbatim>\<open>_getComparableValue\<close>, \<^verbatim>\<open>handleDistinctEvent\<close>, \<^verbatim>\<open>handleRangeEvent\<close>,
  \<^verbatim>\<open>handleQueryBuilderEvent\<close>) as functions on an explicit state.

  Modelling decisions, all of them visible in the definitions below:
  \<^item> A JavaScript number is a finite double, embedded in the rationals; there is no NaN
    and no infinity. Comparisons are exact. \<^verbatim>\<open>+\<close> rounds the exact sum to the nearest
    double, ties to even (\<open>round_double\<close>); a sum that overflows is outside the model.
  \<^item> \<^verbatim>\<open>Date\<close> and \<^verbatim>\<open>ObjectID\<close> values are objects: they carry the reference that
    \<^verbatim>\<open>===\<close> compares, next to their content.
  \<^item> \<^verbatim>\<open>this.selectedValues\<close> is a JavaScript array that may have holes (the range handler
    assigns index 1 of an empty array), so it is a list of optional entries; reading a
    property of a hole raises \<^verbatim>\<open>TypeError\<close>.
  \<^item> The lodash helpers behave as in lodash 3: \<^verbatim>\<open>_.min\<close> and \<^verbatim>\<open>_.max\<close> with an iteratee
    convert the iteratee's result with unary plus, compare strictly and keep the earliest
    extremal element; \<^verbatim>\<open>_.each\<close> and \<^verbatim>\<open>_.remove\<close> visit every index of an array, holes
    included; \<^verbatim>\<open>_.pluck\<close> follows the path \<^verbatim>\<open>d.label\<close> and yields \<^verbatim>\<open>undefined\<close> on a hole.
  \<^item> Where JavaScript would convert a string to a number, or build a string with
    \<^verbatim>\<open>+\<close>, the model stops with the failure \<open>Unmodelled\<close> instead of a value.
\<close>

subsection \<open>Values\<close>

datatype js_value =
    Num rat
  | Str string
  | Bool bool
  | DateObj nat int   \<comment> \<open>reference, milliseconds since the epoch\<close>
  | ObjectID nat int nat   \<comment> \<open>reference, creation time in seconds, the remaining bytes\<close>

text \<open>Strict equality \<^verbatim>\<open>===\<close>: primitives by value and type, objects by reference.\<close>

fun strict_eq :: "js_value \<Rightarrow> js_value \<Rightarrow> bool" where
  "strict_eq (Num a) (Num b) = (a = b)"
| "strict_eq (Str a) (Str b) = (a = b)"
| "strict_eq (Bool a) (Bool b) = (a = b)"
| "strict_eq (DateObj r _) (DateObj r' _) = (r = r')"
| "strict_eq (ObjectID r _ _) (ObjectID r' _ _) = (r = r')"
| "strict_eq _ _ = False"

text \<open>
  Unary plus, and the conversion the relational operators apply to an operand when the
  other one is not a string. A string operand is outside the model.
\<close>

fun to_number :: "js_value \<Rightarrow> rat option" where
  "to_number (Num a) = Some a"
| "to_number (Bool b) = Some (if b then 1 else 0)"
| "to_number (DateObj _ t) = Some (of_int t)"
| "to_number (Str _) = None"
| "to_number (ObjectID _ _ _) = None"

subsection \<open>Addition of doubles\<close>

text \<open>The number of binary digits of a positive integer.\<close>

function bit_length :: "int \<Rightarrow> int" where
  "bit_length n = (if n \<le> 0 then 0 else 1 + bit_length (n div 2))"
  by pat_completeness auto
termination
  by (relation "measure nat") auto

declare bit_length.simps [simp del]

text \<open>The floor of the binary logarithm of a positive rational.\<close>

definition ilog2 :: "rat \<Rightarrow> int" where
  "ilog2 x =
     (if 1 \<le> x then bit_length \<lfloor>x\<rfloor> - 1
      else - bit_length (\<lceil>1 / x\<rceil> - 1))"

definition pow2 :: "int \<Rightarrow> rat" where
  "pow2 k = (if 0 \<le> k then 2 ^ nat k else 1 / 2 ^ nat (- k))"

definition round_half_even :: "rat \<Rightarrow> int" where
  "round_half_even q =
     (let f = \<lfloor>q\<rfloor>; r = q - of_int f
      in if r < 1 / 2 then f else if 1 / 2 < r then f + 1 else if even f then f else f + 1)"

text \<open>
  IEEE 754 binary64, round to nearest, ties to even: a significand of 53 binary digits,
  and the spacing \<open>2 ^ - 1074\<close> of the subnormal numbers as the finest one.
\<close>

definition round_double :: "rat \<Rightarrow> rat" where
  "round_double x =
     (if x = 0 then 0
      else let e = max (ilog2 \<bar>x\<bar> - 52) (- 1074)
           in sgn x * of_int (round_half_even (\<bar>x\<bar> / pow2 e)) * pow2 e)"

text \<open>
  The sum of two numbers. A rounded sum of magnitude \<open>2 ^ 1024\<close> or more is an infinity
  in JavaScript, which is outside the model.
\<close>

definition double_sum :: "rat \<Rightarrow> rat \<Rightarrow> js_value option" where
  "double_sum a b =
     (let r = round_double (a + b) in if \<bar>r\<bar> < 2 ^ 1024 then Some (Num r) else None)"

text \<open>
  \<^verbatim>\<open>v + n\<close> for a number \<open>n\<close>. On a string, a date or another object JavaScript
  concatenates strings, which is outside the model.
\<close>

fun js_add :: "js_value \<Rightarrow> rat \<Rightarrow> js_value option" where
  "js_add (Num a) n = double_sum a n"
| "js_add (Bool b) n = double_sum (if b then 1 else 0) n"
| "js_add _ _ = None"

definition js_rel :: "(rat \<Rightarrow> rat \<Rightarrow> bool) \<Rightarrow> js_value \<Rightarrow> js_value \<Rightarrow> bool option" where
  "js_rel r a b =
     (case to_number a of
        None \<Rightarrow> None
      | Some x \<Rightarrow> (case to_number b of None \<Rightarrow> None | Some y \<Rightarrow> Some (r x y)))"

subsection \<open>Events, elements and the state\<close>

text \<open>The data point \<^verbatim>\<open>d\<close> of a chart element: \<^verbatim>\<open>d.label\<close>, \<^verbatim>\<open>d.value\<close>, \<^verbatim>\<open>d.dx\<close>.\<close>

record datum =
  label :: string
  val :: js_value
  dx :: rat

record dom_event =
  shiftKey :: bool
  propagationStopped :: bool
  defaultPrevented :: bool

text \<open>
  The argument \<^verbatim>\<open>data\<close> of the handlers. \<^verbatim>\<open>self\<close> and the members of \<^verbatim>\<open>all\<close> are
  references to DOM elements. The fields \<^verbatim>\<open>i\<close> and \<^verbatim>\<open>type\<close> are never read.
\<close>

record event =
  d :: datum
  self :: nat
  all_els :: "nat list"
  evt :: dom_event
  source :: string

text \<open>
  A DOM element, as far as the handlers touch it: the two classes they add and remove,
  and the datum d3 has bound to it (\<^verbatim>\<open>d3.select(el).data()[0]\<close>).
\<close>

record element =
  cls_selected :: bool
  cls_unselected :: bool
  bound :: datum

datatype predicate =
    LeafValue js_value
  | ListOperator "js_value list"
  | RangeOp js_value js_value bool

text \<open>
  The view (\<^verbatim>\<open>this\<close>) together with the DOM. \<open>refineValue = None\<close> is the state after
  \<^verbatim>\<open>this.unset('refineValue')\<close>.
\<close>

record chart =
  selectedValues :: "event option list"
  refineValue :: "predicate option"
  dom :: "nat \<Rightarrow> element"

datatype failure = TypeError | Unmodelled

subsection \<open>\<^verbatim>\<open>_getComparableValue\<close>\<close>

text \<open>
  \<^verbatim>\<open>getTimestamp()\<close> allocates a new \<^verbatim>\<open>Date\<close>. Its reference is never inspected (a
  comparable value only meets unary plus and the relational operators), so the model
  gives it the reference of the identifier.
\<close>

fun getComparableValue :: "datum \<Rightarrow> js_value" where
  "getComparableValue p =
     (case val p of
        ObjectID r s _ \<Rightarrow> DateObj r (1000 * s)
      | v \<Rightarrow> v)"

subsection \<open>Class list updates\<close>

text \<open>
  The first sweep over \<^verbatim>\<open>data.all\<close>: every element loses \<^verbatim>\<open>selected\<close>, and gets
  \<^verbatim>\<open>unselected\<close> exactly when the selection is not empty.
\<close>

definition unmark :: "bool \<Rightarrow> nat \<Rightarrow> (nat \<Rightarrow> element) \<Rightarrow> (nat \<Rightarrow> element)" where
  "unmark dimmed el m = m(el := (m el)\<lparr>cls_selected := False, cls_unselected := dimmed\<rparr>)"

definition mark :: "nat \<Rightarrow> (nat \<Rightarrow> element) \<Rightarrow> (nat \<Rightarrow> element)" where
  "mark el m = m(el := (m el)\<lparr>cls_selected := True, cls_unselected := False\<rparr>)"

definition reset_classes :: "bool \<Rightarrow> nat list \<Rightarrow> (nat \<Rightarrow> element) \<Rightarrow> (nat \<Rightarrow> element)" where
  "reset_classes dimmed els m = fold (unmark dimmed) els m"

subsection \<open>\<^verbatim>\<open>handleDistinctEvent\<close>\<close>

definition pluck_label :: "event option list \<Rightarrow> string option list" where
  "pluck_label sel = map (map_option (\<lambda>e. label (d e))) sel"

text \<open>
  The update of \<^verbatim>\<open>this.selectedValues\<close>. \<^verbatim>\<open>_.remove\<close> calls its predicate on every
  index, so it raises on a hole.
\<close>

definition update_distinct :: "event option list \<Rightarrow> event \<Rightarrow> failure + event option list" where
  "update_distinct sel data =
     (if \<not> shiftKey (evt data) then
        (case sel of
           [None] \<Rightarrow> Inl TypeError
         | [Some e] \<Rightarrow> if self e = self data then Inr [] else Inr [Some data]
         | _ \<Rightarrow> Inr [Some data])
      else if Some (label (d data)) \<in> set (pluck_label sel) then
        (if None \<in> set sel then Inl TypeError
         else Inr (filter (\<lambda>s. case s of None \<Rightarrow> True | Some e \<Rightarrow> label (d e) \<noteq> label (d data)) sel))
      else Inr (sel @ [Some data]))"

text \<open>The new \<^verbatim>\<open>refineValue\<close>, from the entries of a selection without holes.\<close>

definition refine_distinct :: "event list \<Rightarrow> predicate option" where
  "refine_distinct es =
     (case es of
        [] \<Rightarrow> None
      | [e] \<Rightarrow> Some (LeafValue (val (d e)))
      | _ \<Rightarrow> Some (ListOperator (map (\<lambda>el. val (d el)) es)))"

text \<open>
  The sweep over \<^verbatim>\<open>data.all\<close> cannot raise. The sweep over \<^verbatim>\<open>this.selectedValues\<close>
  reads \<^verbatim>\<open>selected.self\<close> and raises on a hole, so what follows it sees a selection
  without holes, \<open>es\<close>, of the same length.
\<close>

definition handleDistinctEvent :: "chart \<Rightarrow> event \<Rightarrow> failure + chart" where
  "handleDistinctEvent s data =
     (case update_distinct (selectedValues s) data of
        Inl f \<Rightarrow> Inl f
      | Inr sel \<Rightarrow>
          (case those sel of
             None \<Rightarrow> Inl TypeError
           | Some es \<Rightarrow>
               Inr \<lparr>selectedValues = sel,
                    refineValue = refine_distinct es,
                    dom = fold mark (map self es)
                            (reset_classes (length sel \<noteq> 0) (all_els data) (dom s))\<rparr>))"

subsection \<open>\<^verbatim>\<open>handleRangeEvent\<close>\<close>

text \<open>\<^verbatim>\<open>this.selectedValues[0]\<close>: \<^verbatim>\<open>undefined\<close> on an empty array and on a hole.\<close>

definition first_slot :: "event option list \<Rightarrow> event option" where
  "first_slot sel = (case sel of [] \<Rightarrow> None | x # _ \<Rightarrow> x)"

text \<open>
  \<^verbatim>\<open>this.selectedValues[1] = data\<close>: JavaScript extends an array that is too short and
  leaves a hole at index 0 of an empty one.
\<close>

definition set_second :: "event option list \<Rightarrow> event \<Rightarrow> event option list" where
  "set_second sel data =
     (case sel of
        [] \<Rightarrow> [None, Some data]
      | [x] \<Rightarrow> [x, Some data]
      | x # _ # rest \<Rightarrow> x # Some data # rest)"

definition update_range :: "event option list \<Rightarrow> event \<Rightarrow> event option list" where
  "update_range sel data =
     (if shiftKey (evt data) then set_second sel data
      else if (case first_slot sel of None \<Rightarrow> False | Some e \<Rightarrow> label (d e) = label (d data))
      then []
      else [Some data])"

text \<open>
  The iteratee of \<^verbatim>\<open>_.min\<close> and \<^verbatim>\<open>_.max\<close>, with the unary plus lodash applies to it.
\<close>

definition num_key :: "event \<Rightarrow> rat option" where
  "num_key e = to_number (getComparableValue (d e))"

definition keyed :: "event list \<Rightarrow> (event \<times> rat) list option" where
  "keyed es = those (map (\<lambda>e. map_option (Pair e) (num_key e)) es)"

text \<open>
  lodash's \<^verbatim>\<open>arrayExtremum\<close>: the result changes only when the comparator holds strictly.
  The first element always replaces the initial infinity.
\<close>

fun arrayExtremum :: "(rat \<Rightarrow> rat \<Rightarrow> bool) \<Rightarrow> ('a \<times> rat) \<Rightarrow> ('a \<times> rat) list \<Rightarrow> 'a \<times> rat" where
  "arrayExtremum cmp r [] = r"
| "arrayExtremum cmp r (x # xs) = arrayExtremum cmp (if cmp (snd x) (snd r) then x else r) xs"

text \<open>
  On an empty array lodash returns the infinity it started from, and the handler's
  next read, \<^verbatim>\<open>first.d\<close>, is \<^verbatim>\<open>undefined\<close>, whose \<^verbatim>\<open>value\<close> raises.
\<close>

definition extremum :: "(rat \<Rightarrow> rat \<Rightarrow> bool) \<Rightarrow> (event \<times> rat) list \<Rightarrow> failure + event" where
  "extremum cmp ks = (case ks of [] \<Rightarrow> Inl TypeError | k # rest \<Rightarrow> Inr (fst (arrayExtremum cmp k rest)))"

text \<open>\<^verbatim>\<open>if (this.model.getType() === 'Number') upper += last.d.dx\<close>.\<close>

definition extend_upper :: "string \<Rightarrow> js_value \<Rightarrow> rat \<Rightarrow> js_value option" where
  "extend_upper ty upper w = (if ty = ''Number'' then js_add upper w else Some upper)"

text \<open>
  \<^verbatim>\<open>elData >= lower && (upperInclusive ? elData <= upper : elData < upper)\<close>; the
  second operand is evaluated only when the first one holds.
\<close>

definition in_range :: "js_value \<Rightarrow> js_value \<Rightarrow> bool \<Rightarrow> js_value \<Rightarrow> bool option" where
  "in_range lower upper upperInclusive elData =
     (case js_rel (\<lambda>x y. x \<ge> y) elData lower of
        None \<Rightarrow> None
      | Some False \<Rightarrow> Some False
      | Some True \<Rightarrow>
          (if upperInclusive then js_rel (\<lambda>x y. x \<le> y) elData upper
           else js_rel (\<lambda>x y. x < y) elData upper))"

text \<open>The second sweep over \<^verbatim>\<open>data.all\<close>.\<close>

fun classify :: "js_value \<Rightarrow> js_value \<Rightarrow> bool \<Rightarrow> nat list \<Rightarrow> (nat \<Rightarrow> element) \<Rightarrow> (nat \<Rightarrow> element) option" where
  "classify lower upper incl [] m = Some m"
| "classify lower upper incl (el # els) m =
     (case in_range lower upper incl (getComparableValue (bound (m el))) of
        None \<Rightarrow> None
      | Some b \<Rightarrow> classify lower upper incl els (if b then mark el m else m))"

definition refine_range :: "string \<Rightarrow> event \<Rightarrow> event \<Rightarrow> predicate option" where
  "refine_range ty first_el last_el =
     (case extend_upper ty (val (d last_el)) (dx (d last_el)) of
        None \<Rightarrow> None
      | Some upper \<Rightarrow>
          (if strict_eq (val (d first_el)) upper then Some (LeafValue (val (d first_el)))
           else Some (RangeOp (val (d first_el)) upper (dx (d last_el) = 0))))"

text \<open>
  The part of the handler after \<^verbatim>\<open>firstSelected\<close> was found to be defined. \<open>m\<close> is the
  DOM after the first sweep.
\<close>

definition resolve_range :: "string \<Rightarrow> event option list \<Rightarrow> nat list \<Rightarrow> (nat \<Rightarrow> element) \<Rightarrow> failure + chart" where
  "resolve_range ty sel els m =
     (case those sel of
        None \<Rightarrow> Inl TypeError
      | Some es \<Rightarrow>
          (case keyed es of
             None \<Rightarrow> Inl Unmodelled
           | Some ks \<Rightarrow>
               (case extremum (\<lambda>x y. x < y) ks of
                  Inl f \<Rightarrow> Inl f
                | Inr first_el \<Rightarrow>
                    (case extremum (\<lambda>x y. x > y) ks of
                       Inl f \<Rightarrow> Inl f
                     | Inr last_el \<Rightarrow>
                         (case extend_upper ty (getComparableValue (d last_el)) (dx (d last_el)) of
                            None \<Rightarrow> Inl Unmodelled
                          | Some upper \<Rightarrow>
                              (case classify (getComparableValue (d first_el)) upper (dx (d last_el) = 0) els m of
                                 None \<Rightarrow> Inl Unmodelled
                               | Some m' \<Rightarrow>
                                   (case refine_range ty first_el last_el of
                                      None \<Rightarrow> Inl Unmodelled
                                    | Some p \<Rightarrow>
                                        Inr \<lparr>selectedValues = sel, refineValue = Some p, dom = m'\<rparr>)))))))"

definition handleRangeEvent :: "string \<Rightarrow> chart \<Rightarrow> event \<Rightarrow> failure + chart" where
  "handleRangeEvent ty s data =
     (let sel = update_range (selectedValues s) data;
          firstSelected = first_slot sel;
          m = reset_classes (firstSelected \<noteq> None) (all_els data) (dom s)
      in case firstSelected of
           None \<Rightarrow> Inr \<lparr>selectedValues = sel, refineValue = None, dom = m\<rparr>
         | Some _ \<Rightarrow> resolve_range ty sel (all_els data) m)"

subsection \<open>\<^verbatim>\<open>handleQueryBuilderEvent\<close>\<close>

text \<open>
  \<open>ty\<close> is \<^verbatim>\<open>this.model.getType()\<close>. The two calls on the platform event come first; the
  handlers receive, and store, the event after them.
\<close>

definition suppress :: "event \<Rightarrow> event" where
  "suppress data = data\<lparr>evt := (evt data)\<lparr>propagationStopped := True, defaultPrevented := True\<rparr>\<rparr>"

definition handleQueryBuilderEvent :: "string \<Rightarrow> chart \<Rightarrow> event \<Rightarrow> failure + chart" where
  "handleQueryBuilderEvent ty s data =
     (let data' = suppress data in
      if ty = ''Boolean'' \<or> ty = ''String'' then handleDistinctEvent s data'
      else if ty = ''Number'' then
        (if source data' = ''unique'' then handleDistinctEvent s data'
         else handleRangeEvent ty s data')
      else if ty = ''ObjectID'' \<or> ty = ''Date'' then handleRangeEvent ty s data'
      else Inr s)"

text \<open>A sequence of interactions on one chart; the first failure ends it.\<close>

fun interactions :: "string \<Rightarrow> chart \<Rightarrow> event list \<Rightarrow> failure + chart" where
  "interactions ty s [] = Inr s"
| "interactions ty s (data # rest) =
     (case handleQueryBuilderEvent ty s data of
        Inl f \<Rightarrow> Inl f
      | Inr s' \<Rightarrow> interactions ty s' rest)"

subsection \<open>What an interaction leaves behind\<close>

definition emitted :: "failure + chart \<Rightarrow> failure + predicate option" where
  "emitted r = map_sum id refineValue r"

text \<open>The pair (has class \<^verbatim>\<open>selected\<close>, has class \<^verbatim>\<open>unselected\<close>) of an element.\<close>

definition classes_of :: "failure + chart \<Rightarrow> nat \<Rightarrow> failure + bool \<times> bool" where
  "classes_of r el =
     (case r of Inl f \<Rightarrow> Inl f | Inr s \<Rightarrow> Inr (cls_selected (dom s el), cls_unselected (dom s el)))"

subsection \<open>The charts of the scenarios\<close>

definition pointer :: "bool \<Rightarrow> dom_event" where
  "pointer shift = \<lparr>shiftKey = shift, propagationStopped = False, defaultPrevented = False\<rparr>"

definition bar :: "string \<Rightarrow> js_value \<Rightarrow> rat \<Rightarrow> datum" where
  "bar l v w = \<lparr>label = l, val = v, dx = w\<rparr>"

definition fresh :: "datum \<Rightarrow> element" where
  "fresh p = \<lparr>cls_selected = False, cls_unselected = False, bound = p\<rparr>"

text \<open>A chart of four elements, with the references 0 to 3, before the first click.\<close>

definition chart_of :: "datum \<Rightarrow> datum \<Rightarrow> datum \<Rightarrow> datum \<Rightarrow> chart" where
  "chart_of p0 p1 p2 p3 =
     \<lparr>selectedValues = [], refineValue = None,
      dom = (\<lambda>n. fresh (if n = 0 then p0 else if n = 1 then p1 else if n = 2 then p2 else p3))\<rparr>"

text \<open>A click on element \<open>n\<close> of such a chart, with or without the shift key.\<close>

definition click :: "chart \<Rightarrow> string \<Rightarrow> bool \<Rightarrow> nat \<Rightarrow> event" where
  "click c src shift n =
     \<lparr>d = bound (dom c n), self = n, all_els = [0, 1, 2, 3], evt = pointer shift, source = src\<rparr>"

definition histogram :: chart where
  "histogram = chart_of (bar ''20'' (Num 20) 10) (bar ''30'' (Num 30) 10)
                        (bar ''40'' (Num 40) 10) (bar ''50'' (Num 50) 10)"

definition exact_numbers :: chart where
  "exact_numbers = chart_of (bar ''5'' (Num 5) 0) (bar ''7'' (Num 7) 0)
                            (bar ''9'' (Num 9) 0) (bar ''11'' (Num 11) 0)"

definition letters :: chart where
  "letters = chart_of (bar ''a'' (Str ''a'') 0) (bar ''b'' (Str ''b'') 0)
                      (bar ''c'' (Str ''c'') 0) (bar ''e'' (Str ''e'') 0)"

text \<open>
  Four identifiers; the first two are different identifiers created in the same second.
\<close>

definition identifiers :: chart where
  "identifiers = chart_of (bar ''o1'' (ObjectID 1 100 7) 0) (bar ''o2'' (ObjectID 2 100 8) 0)
                          (bar ''o3'' (ObjectID 3 200 9) 0) (bar ''o4'' (ObjectID 4 300 10) 0)"

text \<open>
  Two histograms on which the addition rounds: bars of width 1 from \<open>2 ^ 53\<close> on, and
  bars of width \<^verbatim>\<open>0.4\<close> at \<^verbatim>\<open>0.1\<close>, \<^verbatim>\<open>0.5\<close>, \<^verbatim>\<open>0.9\<close> and \<^verbatim>\<open>1.3\<close>, each number written
  as the double it is.
\<close>

definition wide_bars :: chart where
  "wide_bars = chart_of (bar ''a'' (Num 9007199254740992) 1) (bar ''b'' (Num 9007199254740994) 1)
                        (bar ''c'' (Num 9007199254740996) 1) (bar ''e'' (Num 9007199254740998) 1)"

definition tenths :: chart where
  "tenths =
     chart_of
       (bar ''0.1'' (Num (3602879701896397 / 36028797018963968)) (3602879701896397 / 9007199254740992))
       (bar ''0.5'' (Num (1 / 2)) (3602879701896397 / 9007199254740992))
       (bar ''0.9'' (Num (8106479329266893 / 9007199254740992)) (3602879701896397 / 9007199254740992))
       (bar ''1.3'' (Num (5854679515581645 / 4503599627370496)) (3602879701896397 / 9007199254740992))"

text \<open>The sums of the scenarios are doubles, so the addition is exact on them.\<close>

lemma round_double_scenarios:
  "round_double 5 = 5" "round_double 9 = 9" "round_double 30 = 30"
  "round_double 40 = 40" "round_double 50 = 50"
  by (simp_all add: round_double_def ilog2_def pow2_def round_half_even_def bit_length.simps Let_def)

text \<open>Where it is not: \<^verbatim>\<open>0.1 + 0.4\<close> is \<^verbatim>\<open>0.5\<close>, and \<^verbatim>\<open>2 ^ 53 + 1\<close> is \<^verbatim>\<open>2 ^ 53\<close>.\<close>

lemma round_double_inexact:
  "round_double (round_double (1 / 10) + round_double (4 / 10)) = 1 / 2"
  "round_double (1 / 10) + round_double (4 / 10) \<noteq> 1 / 2"
  "round_double (round_double (1 / 10) + round_double (2 / 10)) \<noteq> round_double (3 / 10)"
  "round_double 9007199254740993 = 9007199254740992"
  by code_simp+

lemmas scenario_defs =
  histogram_def exact_numbers_def letters_def identifiers_def chart_of_def click_def
  pointer_def bar_def fresh_def emitted_def classes_of_def

lemmas handler_defs =
  handleQueryBuilderEvent_def suppress_def handleDistinctEvent_def update_distinct_def
  pluck_label_def refine_distinct_def handleRangeEvent_def update_range_def first_slot_def
  set_second_def reset_classes_def unmark_def mark_def resolve_range_def keyed_def num_key_def
  extremum_def extend_upper_def in_range_def js_rel_def refine_range_def
  double_sum_def round_double_scenarios

section \<open>Auxiliary facts\<close>

lemma mark_apply: "mark x m el = (if el = x then (m x)\<lparr>cls_selected := True, cls_unselected := False\<rparr> else m el)"
  by (simp add: mark_def)

lemma unmark_apply: "unmark b x m el = (if el = x then (m x)\<lparr>cls_selected := False, cls_unselected := b\<rparr> else m el)"
  by (simp add: unmark_def)

lemma reset_classes_apply:
  "reset_classes b els m el = (if el \<in> set els then (m el)\<lparr>cls_selected := False, cls_unselected := b\<rparr> else m el)"
  unfolding reset_classes_def
  by (induction els arbitrary: m) (auto simp: unmark_apply)

lemma classify_bound:
  "classify lo up incl els m = Some m' \<Longrightarrow> bound (m' el) = bound (m el)"
  by (induction els arbitrary: m) (auto simp: mark_apply split: option.splits if_splits)

lemma classify_apply:
  "classify lo up incl els m = Some m' \<Longrightarrow>
   m' el = (if el \<in> set els \<and> in_range lo up incl (getComparableValue (bound (m el))) = Some True
            then (m el)\<lparr>cls_selected := True, cls_unselected := False\<rparr> else m el)"
proof (induction els arbitrary: m)
  case Nil
  then show ?case by simp
next
  case (Cons x xs)
  from Cons.prems obtain b where
    b: "in_range lo up incl (getComparableValue (bound (m x))) = Some b"
    and rest: "classify lo up incl xs (if b then mark x m else m) = Some m'"
    by (auto split: option.splits)
  show ?case
    using Cons.IH [OF rest] b by (auto simp: mark_apply)
qed

lemma classify_defined:
  "classify lo up incl els m = Some m' \<Longrightarrow> el \<in> set els \<Longrightarrow>
   \<exists>b. in_range lo up incl (getComparableValue (bound (m el))) = Some b"
proof (induction els arbitrary: m)
  case Nil
  then show ?case by simp
next
  case (Cons x xs)
  from Cons.prems(1) obtain b where
    b: "in_range lo up incl (getComparableValue (bound (m x))) = Some b"
    and rest: "classify lo up incl xs (if b then mark x m else m) = Some m'"
    by (auto split: option.splits)
  show ?case
  proof (cases "el = x")
    case True
    then show ?thesis using b by simp
  next
    case False
    then have "el \<in> set xs" using Cons.prems(2) by simp
    from Cons.IH [OF rest this] show ?thesis by (auto simp: mark_apply split: if_splits)
  qed
qed

lemma those_map_Some: "those (map Some es) = Some es"
  by (induction es) auto

lemma those_Some_iff: "those xs = Some es \<longleftrightarrow> xs = map Some es"
  by (induction xs arbitrary: es) (auto split: option.splits)

lemma keyed_fst: "keyed es = Some ks \<Longrightarrow> map fst ks = es"
  unfolding keyed_def
  by (induction es arbitrary: ks) (auto split: option.splits)

lemma keyed_snd: "keyed es = Some ks \<Longrightarrow> p \<in> set ks \<Longrightarrow> num_key (fst p) = Some (snd p)"
  unfolding keyed_def
  by (induction es arbitrary: ks) (auto split: option.splits)

lemma arrayExtremum_mem: "arrayExtremum cmp r xs \<in> set (r # xs)"
  by (induction xs arbitrary: r) auto

lemma arrayExtremum_least: "\<forall>x\<in>set (r # xs). snd (arrayExtremum (\<lambda>a b. a < b) r xs) \<le> snd x"
proof (induction xs arbitrary: r)
  case Nil
  show ?case by simp
next
  case (Cons y ys)
  show ?case using Cons.IH [of "if snd y < snd r then y else r"]
    by (auto split: if_splits)
qed

lemma arrayExtremum_greatest: "\<forall>x\<in>set (r # xs). snd x \<le> snd (arrayExtremum (\<lambda>a b. a > b) r xs)"
proof (induction xs arbitrary: r)
  case Nil
  show ?case by simp
next
  case (Cons y ys)
  show ?case using Cons.IH [of "if snd y > snd r then y else r"]
    by (auto split: if_splits)
qed


lemma extremum_min:
  assumes "keyed es = Some ks" and "extremum (\<lambda>x y. x < y) ks = Inr first_el"
  shows "first_el \<in> set es \<and>
         (\<exists>k. num_key first_el = Some k \<and> (\<forall>e\<in>set es. \<exists>k'. num_key e = Some k' \<and> k \<le> k'))"
proof -
  from assms(2) obtain k rest where ks: "ks = k # rest"
    and f: "first_el = fst (arrayExtremum (\<lambda>x y. x < y) k rest)"
    by (auto simp: extremum_def split: list.splits)
  define p where "p = arrayExtremum (\<lambda>x y. x < y) k rest"
  have mem: "p \<in> set ks" unfolding p_def ks by (rule arrayExtremum_mem)
  have fst_ks: "map fst ks = es" by (rule keyed_fst [OF assms(1)])
  have "fst p \<in> set (map fst ks)" using mem by (simp del: map_eq_conv)
  then have 1: "first_el \<in> set es" using fst_ks f p_def by simp
  have 2: "num_key first_el = Some (snd p)"
    using keyed_snd [OF assms(1) mem] f p_def by simp
  have 3: "\<exists>k'. num_key e = Some k' \<and> snd p \<le> k'" if "e \<in> set es" for e
  proof -
    from that fst_ks obtain q where q: "q \<in> set ks" "fst q = e" by auto
    have "snd p \<le> snd q" using arrayExtremum_least [of k rest] q(1) unfolding p_def ks by blast
    then show ?thesis using keyed_snd [OF assms(1) q(1)] q(2) by auto
  qed
  show ?thesis using 1 2 3 by blast
qed

lemma extremum_max:
  assumes "keyed es = Some ks" and "extremum (\<lambda>x y. x > y) ks = Inr last_el"
  shows "last_el \<in> set es \<and>
         (\<exists>k. num_key last_el = Some k \<and> (\<forall>e\<in>set es. \<exists>k'. num_key e = Some k' \<and> k' \<le> k))"
proof -
  from assms(2) obtain k rest where ks: "ks = k # rest"
    and f: "last_el = fst (arrayExtremum (\<lambda>x y. x > y) k rest)"
    by (auto simp: extremum_def split: list.splits)
  define p where "p = arrayExtremum (\<lambda>x y. x > y) k rest"
  have mem: "p \<in> set ks" unfolding p_def ks by (rule arrayExtremum_mem)
  have fst_ks: "map fst ks = es" by (rule keyed_fst [OF assms(1)])
  have "fst p \<in> set (map fst ks)" using mem by (simp del: map_eq_conv)
  then have 1: "last_el \<in> set es" using fst_ks f p_def by simp
  have 2: "num_key last_el = Some (snd p)"
    using keyed_snd [OF assms(1) mem] f p_def by simp
  have 3: "\<exists>k'. num_key e = Some k' \<and> k' \<le> snd p" if "e \<in> set es" for e
  proof -
    from that fst_ks obtain q where q: "q \<in> set ks" "fst q = e" by auto
    have "snd q \<le> snd p" using arrayExtremum_greatest [of k rest] q(1) unfolding p_def ks by blast
    then show ?thesis using keyed_snd [OF assms(1) q(1)] q(2) by auto
  qed
  show ?thesis using 1 2 3 by blast
qed

lemma resolve_range_Inr:
  assumes "resolve_range ty sel els m = Inr s'"
  shows "\<exists>es ks first_el last_el upper m' p.
           those sel = Some es \<and> keyed es = Some ks \<and>
           extremum (\<lambda>x y. x < y) ks = Inr first_el \<and>
           extremum (\<lambda>x y. x > y) ks = Inr last_el \<and>
           extend_upper ty (getComparableValue (d last_el)) (dx (d last_el)) = Some upper \<and>
           classify (getComparableValue (d first_el)) upper (dx (d last_el) = 0) els m = Some m' \<and>
           refine_range ty first_el last_el = Some p \<and>
           s' = \<lparr>selectedValues = sel, refineValue = Some p, dom = m'\<rparr>"
  using assms unfolding resolve_range_def
  by (auto split: option.splits sum.splits)

lemma handleRangeEvent_nonempty:
  assumes "handleRangeEvent ty s data = Inr s'" and "first_slot (selectedValues s') \<noteq> None"
  shows "resolve_range ty (update_range (selectedValues s) data) (all_els data)
           (reset_classes True (all_els data) (dom s)) = Inr s'"
proof (cases "first_slot (update_range (selectedValues s) data)")
  case None
  then have "selectedValues s' = update_range (selectedValues s) data"
    using assms(1) by (auto simp: handleRangeEvent_def Let_def)
  then show ?thesis using None assms(2) by simp
next
  case (Some e)
  then show ?thesis using assms(1) by (simp add: handleRangeEvent_def Let_def)
qed

lemma extend_upper_number:
  assumes "extend_upper ty c w = Some upper" and "to_number c = Some hi"
  shows "to_number upper = Some (if ty = ''Number'' then round_double (hi + w) else hi)"
  using assms
  by (cases c) (auto simp: extend_upper_def double_sum_def Let_def split: if_splits)

lemma in_range_number:
  assumes "to_number lo = Some l" and "to_number up = Some u" and "to_number v = Some x"
  shows "in_range lo up incl v = Some (l \<le> x \<and> (if incl then x \<le> u else x < u))"
  using assms by (auto simp: in_range_def js_rel_def split: bool.splits)

lemma in_range_defined:
  assumes "in_range lo up incl v = Some b"
  shows "\<exists>x. to_number v = Some x"
  using assms by (auto simp: in_range_def js_rel_def split: option.splits)

lemma reset_classes_bound: "bound (reset_classes b els m el) = bound (m el)"
  by (simp add: reset_classes_apply)

lemma range_event_anatomy:
  assumes "handleRangeEvent ty s data = Inr s'" and "first_slot (selectedValues s') \<noteq> None"
  obtains es ks first_el last_el lo hi cupper p where
    "those (selectedValues s') = Some es" and "keyed es = Some ks"
    and "extremum (\<lambda>x y. x < y) ks = Inr first_el"
    and "extremum (\<lambda>x y. x > y) ks = Inr last_el"
    and "first_el \<in> set es" and "last_el \<in> set es"
    and "num_key first_el = Some lo" and "num_key last_el = Some hi"
    and "\<forall>e\<in>set es. \<exists>k. num_key e = Some k \<and> lo \<le> k \<and> k \<le> hi"
    and "to_number cupper = Some (if ty = ''Number'' then round_double (hi + dx (d last_el)) else hi)"
    and "classify (getComparableValue (d first_el)) cupper (dx (d last_el) = 0) (all_els data)
           (reset_classes True (all_els data) (dom s)) = Some (dom s')"
    and "refine_range ty first_el last_el = Some p" and "refineValue s' = Some p"
proof -
  from resolve_range_Inr [OF handleRangeEvent_nonempty [OF assms]]
  obtain es ks first_el last_el cupper m' p where
    es: "those (update_range (selectedValues s) data) = Some es"
    and ks: "keyed es = Some ks"
    and mn: "extremum (\<lambda>x y. x < y) ks = Inr first_el"
    and mx: "extremum (\<lambda>x y. x > y) ks = Inr last_el"
    and up: "extend_upper ty (getComparableValue (d last_el)) (dx (d last_el)) = Some cupper"
    and cl: "classify (getComparableValue (d first_el)) cupper (dx (d last_el) = 0) (all_els data)
               (reset_classes True (all_els data) (dom s)) = Some m'"
    and p: "refine_range ty first_el last_el = Some p"
    and s': "s' = \<lparr>selectedValues = update_range (selectedValues s) data, refineValue = Some p, dom = m'\<rparr>"
    by blast
  from extremum_min [OF ks mn] obtain lo where
    f: "first_el \<in> set es" and lo: "num_key first_el = Some lo"
    and least: "\<forall>e\<in>set es. \<exists>k'. num_key e = Some k' \<and> lo \<le> k'"
    by blast
  from extremum_max [OF ks mx] obtain hi where
    l: "last_el \<in> set es" and hi: "num_key last_el = Some hi"
    and greatest: "\<forall>e\<in>set es. \<exists>k'. num_key e = Some k' \<and> k' \<le> hi"
    by blast
  have between: "\<forall>e\<in>set es. \<exists>k. num_key e = Some k \<and> lo \<le> k \<and> k \<le> hi"
    using least greatest by fastforce
  have cu: "to_number cupper = Some (if ty = ''Number'' then round_double (hi + dx (d last_el)) else hi)"
    using extend_upper_number [OF up] hi by (simp add: num_key_def)
  show thesis
    using that [of es ks first_el last_el lo hi cupper p] es ks mn mx f l lo hi between cu cl p s'
    by simp
qed

lemma handleRangeEvent_reset:
  assumes "handleRangeEvent ty s data = Inr s1"
  shows "reset_classes b (all_els data) (dom s1) = reset_classes b (all_els data) (dom s)"
proof (cases "first_slot (update_range (selectedValues s) data)")
  case None
  then have "dom s1 = reset_classes False (all_els data) (dom s)"
    using assms by (auto simp: handleRangeEvent_def Let_def)
  then show ?thesis by (auto simp: reset_classes_apply)
next
  case (Some e)
  then have "resolve_range ty (update_range (selectedValues s) data) (all_els data)
      (reset_classes True (all_els data) (dom s)) = Inr s1"
    using assms by (simp add: handleRangeEvent_def Let_def)
  from resolve_range_Inr [OF this] obtain lo up incl where
    cl: "classify lo up incl (all_els data) (reset_classes True (all_els data) (dom s)) = Some (dom s1)"
    by auto
  show ?thesis
  proof
    fix el
    show "reset_classes b (all_els data) (dom s1) el = reset_classes b (all_els data) (dom s) el"
      using classify_apply [OF cl, of el] by (simp add: reset_classes_apply)
  qed
qed

lemma resolve_range_swap:
  assumes "num_key x = Some kx" and "num_key y = Some ky" and "kx \<noteq> ky"
    and "d x' = d x" and "d y' = d y"
    and "resolve_range ty [Some x, Some y'] els m = Inr s2"
    and "resolve_range ty [Some y, Some x'] els m = Inr t2"
  shows "refineValue s2 = refineValue t2 \<and> dom s2 = dom t2"
proof -
  have kx': "num_key x' = Some kx" and ky': "num_key y' = Some ky"
    using assms by (simp_all add: num_key_def)
  show ?thesis
  proof (cases "kx < ky")
    case True
    then show ?thesis
      using assms(1,2,6,7) kx' ky'
      by (auto simp: resolve_range_def keyed_def extremum_def refine_range_def assms(4,5)
            split: option.splits if_splits)
  next
    case False
    then have "ky < kx" using assms(3) by simp
    then show ?thesis
      using assms(1,2,6,7) kx' ky'
      by (auto simp: resolve_range_def keyed_def extremum_def refine_range_def assms(4,5)
            split: option.splits if_splits)
  qed
qed

lemma update_range_click:
  assumes "\<not> shiftKey (evt a)"
    and "\<forall>e. first_slot sel = Some e \<longrightarrow> label (d e) \<noteq> label (d a)"
  shows "update_range sel a = [Some a]"
  using assms by (auto simp: update_range_def split: option.splits)

lemma handleRangeEvent_selection:
  assumes "handleRangeEvent ty s data = Inr s1"
  shows "selectedValues s1 = update_range (selectedValues s) data"
  using assms
  by (auto simp: handleRangeEvent_def Let_def split: option.splits dest: resolve_range_Inr)

lemma handleRangeEvent_resolve:
  assumes "handleRangeEvent ty s data = Inr s1"
    and "first_slot (update_range (selectedValues s) data) \<noteq> None"
  shows "resolve_range ty (update_range (selectedValues s) data) (all_els data)
           (reset_classes True (all_els data) (dom s)) = Inr s1"
  using assms by (auto simp: handleRangeEvent_def Let_def split: option.splits)

lemma handleDistinctEvent_dense:
  assumes "selectedValues s = map Some es"
  shows "\<exists>s'. handleDistinctEvent s data = Inr s' \<and>
     selectedValues s' =
       map Some
         (if \<not> shiftKey (evt data) then
            (if \<exists>e. es = [e] \<and> self e = self data then [] else [data])
          else if label (d data) \<in> set (map (\<lambda>e. label (d e)) es)
          then filter (\<lambda>e. label (d e) \<noteq> label (d data)) es
          else es @ [data])"
proof (cases "shiftKey (evt data)")
  case False
  show ?thesis
  proof (cases es)
    case Nil
    then show ?thesis using False assms
      by (simp add: handleDistinctEvent_def update_distinct_def)
  next
    case (Cons e rest)
    then show ?thesis using False assms
      by (cases rest) (simp_all add: handleDistinctEvent_def update_distinct_def)
  qed
next
  case True
  have pl: "Some (label (d data)) \<in> set (pluck_label (map Some es))
        \<longleftrightarrow> label (d data) \<in> set (map (\<lambda>e. label (d e)) es)"
    by (auto simp: pluck_label_def)
  have flt: "filter (\<lambda>s. case s of None \<Rightarrow> True | Some e \<Rightarrow> label (d e) \<noteq> label (d data)) (map Some es)
        = map Some (filter (\<lambda>e. label (d e) \<noteq> label (d data)) es)"
    by (induction es) auto
  have app: "map Some es @ [Some data] = map Some (es @ [data])" by simp
  have no_hole: "None \<notin> set (map Some es)" by auto
  show ?thesis
  proof (cases "label (d data) \<in> set (map (\<lambda>e. label (d e)) es)")
    case present: True
    have "update_distinct (map Some es) data
        = Inr (map Some (filter (\<lambda>e. label (d e) \<noteq> label (d data)) es))"
      unfolding update_distinct_def using True present pl flt no_hole by simp
    then show ?thesis using True present assms
      by (simp add: handleDistinctEvent_def those_map_Some)
  next
    case absent: False
    have "update_distinct (map Some es) data = Inr (map Some (es @ [data]))"
      unfolding update_distinct_def using True absent pl app by simp
    then show ?thesis using True absent assms
      by (simp add: handleDistinctEvent_def those_map_Some del: map_append)
  qed
qed

lemma handleDistinctEvent_Inr:
  assumes "handleDistinctEvent s data = Inr s'"
  shows "\<exists>es. selectedValues s' = map Some es \<and> refineValue s' = refine_distinct es \<and>
           dom s' = fold mark (map self es)
                      (reset_classes (es \<noteq> []) (all_els data) (dom s))"
  using assms unfolding handleDistinctEvent_def
  by (auto simp: those_Some_iff split: sum.splits option.splits)


lemma distinct_step_labels:
  assumes "distinct (map (\<lambda>e. label (d e)) es)"
  shows "distinct (map (\<lambda>e. label (d e))
           (if \<not> shiftKey (evt data) then
              (if \<exists>e. es = [e] \<and> self e = self data then [] else [data])
            else if label (d data) \<in> set (map (\<lambda>e. label (d e)) es)
            then filter (\<lambda>e. label (d e) \<noteq> label (d data)) es
            else es @ [data]))"
  using assms by (auto simp: distinct_map_filter)

lemma distinct_mode_dispatch:
  assumes "ty = ''Boolean'' \<or> ty = ''String'' \<or> (ty = ''Number'' \<and> source data = ''unique'')"
  shows "handleQueryBuilderEvent ty s data = handleDistinctEvent s (suppress data)"
  using assms by (auto simp: handleQueryBuilderEvent_def Let_def suppress_def)

lemma distinct_interactions:
  assumes "ty = ''Boolean'' \<or> ty = ''String'' \<or> (ty = ''Number'' \<and> (\<forall>e\<in>set evs. source e = ''unique''))"
    and "selectedValues s = map Some es" and "distinct (map (\<lambda>e. label (d e)) es)"
  shows "\<exists>s' es'. interactions ty s evs = Inr s' \<and> selectedValues s' = map Some es' \<and>
           distinct (map (\<lambda>e. label (d e)) es')"
  using assms
proof (induction evs arbitrary: s es)
  case Nil
  then show ?case by auto
next
  case (Cons data rest)
  have disp: "handleQueryBuilderEvent ty s data = handleDistinctEvent s (suppress data)"
    using Cons.prems(1) by (intro distinct_mode_dispatch) auto
  from handleDistinctEvent_dense [OF Cons.prems(2), of "suppress data"]
  obtain s1 where s1: "handleDistinctEvent s (suppress data) = Inr s1"
    and sel: "selectedValues s1 =
       map Some
         (if \<not> shiftKey (evt (suppress data)) then
            (if \<exists>e. es = [e] \<and> self e = self (suppress data) then [] else [suppress data])
          else if label (d (suppress data)) \<in> set (map (\<lambda>e. label (d e)) es)
          then filter (\<lambda>e. label (d e) \<noteq> label (d (suppress data))) es
          else es @ [suppress data])"
    by blast
  have tl: "ty = ''Boolean'' \<or> ty = ''String'' \<or> (ty = ''Number'' \<and> (\<forall>e\<in>set rest. source e = ''unique''))"
    using Cons.prems(1) by auto
  from Cons.IH [OF tl sel distinct_step_labels [OF Cons.prems(3)]]
  show ?case using disp s1 by simp
qed

lemma update_range_no_single_hole: "update_range sel data \<noteq> [None]"
  by (auto simp: update_range_def set_second_def split: list.splits)

lemma step_no_single_hole:
  assumes "handleQueryBuilderEvent ty s data = Inr s'" and "selectedValues s \<noteq> [None]"
  shows "selectedValues s' \<noteq> [None]"
proof -
  have dist: "selectedValues t \<noteq> [None]" if "handleDistinctEvent s (suppress data) = Inr t" for t
    using handleDistinctEvent_Inr [OF that] by auto
  have rng: "selectedValues t \<noteq> [None]" if "handleRangeEvent ty s (suppress data) = Inr t" for t
    using handleRangeEvent_selection [OF that] update_range_no_single_hole by simp
  show ?thesis
    using assms dist rng
    by (auto simp: handleQueryBuilderEvent_def Let_def split: if_splits)
qed

lemma interactions_no_single_hole:
  assumes "interactions ty s evs = Inr s'" and "selectedValues s \<noteq> [None]"
  shows "selectedValues s' \<noteq> [None]"
  using assms
proof (induction evs arbitrary: s)
  case Nil
  then show ?case by simp
next
  case (Cons data rest)
  from Cons.prems(1) obtain s1 where
    one: "handleQueryBuilderEvent ty s data = Inr s1" and more: "interactions ty s1 rest = Inr s'"
    by (auto split: sum.splits)
  from Cons.IH [OF more step_no_single_hole [OF one Cons.prems(2)]] show ?case .
qed

lemma refine_distinct_cases:
  "(es = [] \<longrightarrow> refine_distinct es = None) \<and>
   (\<forall>e. es = [e] \<longrightarrow> refine_distinct es = Some (LeafValue (val (d e)))) \<and>
   (1 < length es \<longrightarrow> refine_distinct es = Some (ListOperator (map (\<lambda>e. val (d e)) es)))"
  by (auto simp: refine_distinct_def split: list.splits)

section \<open>The dispatch\<close>

text \<open>
  Claim C8. The entry point routes every interaction by the field type: Boolean and String
  fields go to the distinct handler; Number fields go to the distinct handler when the
  source of the event is \<^verbatim>\<open>unique\<close> and to the range handler otherwise; Date and ObjectID
  fields go to the range handler. The handler receives the event after
  \<^verbatim>\<open>stopPropagation\<close> and \<^verbatim>\<open>preventDefault\<close>.
\<close>

theorem dispatch_by_field_type:
  "(ty = ''Boolean'' \<or> ty = ''String'' \<longrightarrow>
      handleQueryBuilderEvent ty s data = handleDistinctEvent s (suppress data)) \<and>
   (ty = ''Number'' \<and> source data = ''unique'' \<longrightarrow>
      handleQueryBuilderEvent ty s data = handleDistinctEvent s (suppress data)) \<and>
   (ty = ''Number'' \<and> source data \<noteq> ''unique'' \<longrightarrow>
      handleQueryBuilderEvent ty s data = handleRangeEvent ty s (suppress data)) \<and>
   (ty = ''Date'' \<or> ty = ''ObjectID'' \<longrightarrow>
      handleQueryBuilderEvent ty s data = handleRangeEvent ty s (suppress data))"
  by (auto simp: handleQueryBuilderEvent_def suppress_def Let_def)

theorem dispatch_by_field_type_witness:
  "handleQueryBuilderEvent ''Boolean'' letters (click letters ''few'' False 0)
     = handleDistinctEvent letters (suppress (click letters ''few'' False 0)) \<and>
   handleQueryBuilderEvent ''String'' letters (click letters ''few'' False 0)
     = handleDistinctEvent letters (suppress (click letters ''few'' False 0)) \<and>
   handleQueryBuilderEvent ''Number'' exact_numbers (click exact_numbers ''unique'' False 0)
     = handleDistinctEvent exact_numbers (suppress (click exact_numbers ''unique'' False 0)) \<and>
   handleQueryBuilderEvent ''Number'' histogram (click histogram ''many'' False 0)
     = handleRangeEvent ''Number'' histogram (suppress (click histogram ''many'' False 0)) \<and>
   handleQueryBuilderEvent ''Date'' identifiers (click identifiers ''date'' False 0)
     = handleRangeEvent ''Date'' identifiers (suppress (click identifiers ''date'' False 0)) \<and>
   handleQueryBuilderEvent ''ObjectID'' identifiers (click identifiers ''date'' False 0)
     = handleRangeEvent ''ObjectID'' identifiers (suppress (click identifiers ''date'' False 0))"
proof -
  have many: "source (click histogram ''many'' False 0) \<noteq> ''unique''"
    by (simp add: click_def)
  have unique: "source (click exact_numbers ''unique'' False 0) = ''unique''"
    by (simp add: click_def)
  show ?thesis
    using dispatch_by_field_type [of "''Boolean''" letters "click letters ''few'' False 0"]
      dispatch_by_field_type [of "''String''" letters "click letters ''few'' False 0"]
      dispatch_by_field_type [of "''Number''" exact_numbers "click exact_numbers ''unique'' False 0"]
      dispatch_by_field_type [of "''Number''" histogram "click histogram ''many'' False 0"]
      dispatch_by_field_type [of "''Date''" identifiers "click identifiers ''date'' False 0"]
      dispatch_by_field_type [of "''ObjectID''" identifiers "click identifiers ''date'' False 0"]
      many unique
    by simp
qed

text \<open>
  Claim C9. For a field type outside the dispatch table (not Boolean, String, Number, Date
  or ObjectID) an interaction returns normally and leaves the whole state as it was:
  the selection, the predicate and the classes of the elements.
\<close>

theorem unsupported_type_is_noop:
  assumes "ty \<notin> {''Boolean'', ''String'', ''Number'', ''Date'', ''ObjectID''}"
  shows "handleQueryBuilderEvent ty s data = Inr s"
  using assms by (simp add: handleQueryBuilderEvent_def Let_def)

theorem unsupported_type_is_noop_witness:
  "''Array'' \<notin> {''Boolean'', ''String'', ''Number'', ''Date'', ''ObjectID''} \<and>
   handleQueryBuilderEvent ''Array'' letters (click letters ''few'' True 1) = Inr letters"
proof -
  have h: "''Array'' \<notin> {''Boolean'', ''String'', ''Number'', ''Date'', ''ObjectID''}"
    by simp
  show ?thesis
    using h unsupported_type_is_noop [OF h, of letters "click letters ''few'' True 1"] by simp
qed

section \<open>Distinct mode\<close>

text \<open>
  Claim C5. A distinct-mode modifier-click on a selection without holes appends the
  clicked element when its label is not in the selection, and removes every entry with
  that label when it is. Consequently, after any sequence of distinct-mode interactions
  that starts from the empty selection (a Boolean or String field, or a Number field
  whose events all come from \<^verbatim>\<open>unique\<close>), every interaction has returned, the selection has
  no hole and no two of its entries carry the same label.
\<close>

theorem distinct_toggle_keeps_labels_unique:
  "(\<forall>s data es.
      selectedValues s = map Some es \<and> shiftKey (evt data) \<longrightarrow>
      (\<exists>s'. handleDistinctEvent s data = Inr s' \<and>
         selectedValues s' =
           map Some
             (if label (d data) \<in> set (map (\<lambda>e. label (d e)) es)
              then filter (\<lambda>e. label (d e) \<noteq> label (d data)) es
              else es @ [data]))) \<and>
   (\<forall>ty s evs.
      selectedValues s = [] \<and>
      (ty = ''Boolean'' \<or> ty = ''String'' \<or>
       (ty = ''Number'' \<and> (\<forall>e\<in>set evs. source e = ''unique''))) \<longrightarrow>
      (\<exists>s' es. interactions ty s evs = Inr s' \<and> selectedValues s' = map Some es \<and>
         distinct (map (\<lambda>e. label (d e)) es)))"
proof (intro conjI allI impI)
  fix s :: chart and data :: event and es :: "event list"
  assume a: "selectedValues s = map Some es \<and> shiftKey (evt data)"
  then have sel: "selectedValues s = map Some es" and sh: "shiftKey (evt data)" by auto
  from handleDistinctEvent_dense [OF sel, of data] sh
  show "\<exists>s'. handleDistinctEvent s data = Inr s' \<and>
         selectedValues s' =
           map Some
             (if label (d data) \<in> set (map (\<lambda>e. label (d e)) es)
              then filter (\<lambda>e. label (d e) \<noteq> label (d data)) es
              else es @ [data])"
    by simp
next
  fix ty and s :: chart and evs :: "event list"
  assume a: "selectedValues s = [] \<and>
      (ty = ''Boolean'' \<or> ty = ''String'' \<or>
       (ty = ''Number'' \<and> (\<forall>e\<in>set evs. source e = ''unique'')))"
  then have e: "selectedValues s = map Some []" by simp
  from a have t: "ty = ''Boolean'' \<or> ty = ''String'' \<or>
       (ty = ''Number'' \<and> (\<forall>e\<in>set evs. source e = ''unique''))" by simp
  from distinct_interactions [OF t e]
  show "\<exists>s' es. interactions ty s evs = Inr s' \<and> selectedValues s' = map Some es \<and>
         distinct (map (\<lambda>e. label (d e)) es)"
    by simp
qed


theorem distinct_toggle_keeps_labels_unique_witness:
  "(\<exists>s'. handleDistinctEvent letters (click letters ''few'' True 1) = Inr s' \<and>
      selectedValues s' = map Some [click letters ''few'' True 1]) \<and>
   (\<exists>s' es. interactions ''String'' letters
        [click letters ''few'' False 0, click letters ''few'' True 1,
         click letters ''few'' True 0, click letters ''few'' True 2,
         click letters ''few'' True 0] = Inr s' \<and>
      selectedValues s' = map Some es \<and> distinct (map (\<lambda>e. label (d e)) es))"
proof -
  have e: "selectedValues letters = map Some [] \<and> shiftKey (evt (click letters ''few'' True 1))"
    by (simp add: scenario_defs)
  have 1: "\<exists>s'. handleDistinctEvent letters (click letters ''few'' True 1) = Inr s' \<and>
      selectedValues s' = map Some [click letters ''few'' True 1]"
    using distinct_toggle_keeps_labels_unique [THEN conjunct1, rule_format, OF e] by simp
  have f: "selectedValues letters = [] \<and>
      (''String'' = ''Boolean'' \<or> ''String'' = ''String'' \<or>
       (''String'' = ''Number'' \<and> (\<forall>e\<in>set [click letters ''few'' False 0, click letters ''few'' True 1,
         click letters ''few'' True 0, click letters ''few'' True 2,
         click letters ''few'' True 0]. source e = ''unique'')))"
    by (simp add: scenario_defs)
  show ?thesis
    using 1 distinct_toggle_keeps_labels_unique [THEN conjunct2, rule_format, OF f] by blast
qed

text \<open>
  Claim C6. A distinct-mode click without modifier clears the selection and the predicate
  when the selection is exactly the clicked element (the same DOM element), and otherwise
  replaces the selection by the clicked element alone, whose value becomes the predicate.
  The one selection left out, a single hole, raises in the source and cannot be reached:
  no sequence of interactions that starts from the empty selection produces it.
\<close>

theorem plain_click_replaces_or_clears:
  assumes "\<not> shiftKey (evt data)" and "selectedValues s \<noteq> [None]"
  shows "(\<exists>s'. handleDistinctEvent s data = Inr s' \<and>
            (if \<exists>e. selectedValues s = [Some e] \<and> self e = self data
             then selectedValues s' = [] \<and> refineValue s' = None
             else selectedValues s' = [Some data] \<and>
                  refineValue s' = Some (LeafValue (val (d data))))) \<and>
         (\<forall>ty s0 evs s1. selectedValues s0 = [] \<and> interactions ty s0 evs = Inr s1 \<longrightarrow>
            selectedValues s1 \<noteq> [None])"
proof
  have upd: "update_distinct (selectedValues s) data =
      Inr (if \<exists>e. selectedValues s = [Some e] \<and> self e = self data then [] else [Some data])"
    using assms by (auto simp: update_distinct_def split: list.splits option.splits)
  show "\<exists>s'. handleDistinctEvent s data = Inr s' \<and>
            (if \<exists>e. selectedValues s = [Some e] \<and> self e = self data
             then selectedValues s' = [] \<and> refineValue s' = None
             else selectedValues s' = [Some data] \<and>
                  refineValue s' = Some (LeafValue (val (d data))))"
    unfolding handleDistinctEvent_def upd by (simp add: refine_distinct_def)
next
  show "\<forall>ty s0 evs s1. selectedValues s0 = [] \<and> interactions ty s0 evs = Inr s1 \<longrightarrow>
            selectedValues s1 \<noteq> [None]"
    using interactions_no_single_hole by fastforce
qed

theorem plain_click_replaces_or_clears_witness:
  "\<exists>s1 s2.
     \<not> shiftKey (evt (click letters ''few'' False 0)) \<and> selectedValues letters \<noteq> [None] \<and>
     handleDistinctEvent letters (click letters ''few'' False 0) = Inr s1 \<and>
     selectedValues s1 = [Some (click letters ''few'' False 0)] \<and>
     refineValue s1 = Some (LeafValue (Str ''a'')) \<and>
     selectedValues s1 \<noteq> [None] \<and>
     handleDistinctEvent s1 (click letters ''few'' False 0) = Inr s2 \<and>
     selectedValues s2 = [] \<and> refineValue s2 = None"
proof -
  let ?c = "click letters ''few'' False 0"
  have a: "\<not> shiftKey (evt ?c)" by (simp add: scenario_defs)
  have b: "selectedValues letters \<noteq> [None]" by (simp add: scenario_defs)
  have c: "\<not> (\<exists>e. selectedValues letters = [Some e] \<and> self e = self ?c)"
    by (simp add: scenario_defs)
  from plain_click_replaces_or_clears [OF a b, THEN conjunct1] c
  obtain s1 where s1: "handleDistinctEvent letters ?c = Inr s1"
    and sel1: "selectedValues s1 = [Some ?c]"
    and r1: "refineValue s1 = Some (LeafValue (val (d ?c)))"
    by auto
  have v: "val (d ?c) = Str ''a''" by (simp add: scenario_defs)
  have b1: "selectedValues s1 \<noteq> [None]" using sel1 by simp
  have c1: "\<exists>e. selectedValues s1 = [Some e] \<and> self e = self ?c" using sel1 by simp
  from plain_click_replaces_or_clears [OF a b1, THEN conjunct1] c1
  obtain s2 where "handleDistinctEvent s1 ?c = Inr s2"
    and "selectedValues s2 = []" and "refineValue s2 = None"
    by auto
  then show ?thesis using a b s1 sel1 r1 v b1 by auto
qed

text \<open>
  Claim C7. After every distinct-mode interaction that returns, the selection has no hole
  and its size fixes the predicate: none for the empty selection, the exact value of the
  element for a selection of one, and the list of the values of all selected elements, in
  selection order, for more than one. On a selection without holes the interaction always
  returns. The scenario of the String chart: click a, shift-click b, click a, click a.
\<close>

theorem distinct_predicate_by_selection_size:
  "(\<forall>s data s'.
      handleDistinctEvent s data = Inr s' \<longrightarrow>
      (\<exists>es. selectedValues s' = map Some es \<and>
         (es = [] \<longrightarrow> refineValue s' = None) \<and>
         (\<forall>e. es = [e] \<longrightarrow> refineValue s' = Some (LeafValue (val (d e)))) \<and>
         (1 < length es \<longrightarrow>
            refineValue s' = Some (ListOperator (map (\<lambda>e. val (d e)) es))))) \<and>
   (\<forall>s data es. selectedValues s = map Some es \<longrightarrow> (\<exists>s'. handleDistinctEvent s data = Inr s')) \<and>
   emitted (interactions ''String'' letters [click letters ''few'' False 0])
     = Inr (Some (LeafValue (Str ''a''))) \<and>
   emitted (interactions ''String'' letters
      [click letters ''few'' False 0, click letters ''few'' True 1])
     = Inr (Some (ListOperator [Str ''a'', Str ''b''])) \<and>
   emitted (interactions ''String'' letters
      [click letters ''few'' False 0, click letters ''few'' True 1,
       click letters ''few'' False 0])
     = Inr (Some (LeafValue (Str ''a''))) \<and>
   emitted (interactions ''String'' letters
      [click letters ''few'' False 0, click letters ''few'' True 1,
       click letters ''few'' False 0, click letters ''few'' False 0])
     = Inr None"
proof (intro conjI allI impI)
  fix s :: chart and data :: event and s' :: chart
  assume "handleDistinctEvent s data = Inr s'"
  from handleDistinctEvent_Inr [OF this] obtain es where
    "selectedValues s' = map Some es" and "refineValue s' = refine_distinct es"
    by blast
  then show "\<exists>es. selectedValues s' = map Some es \<and>
         (es = [] \<longrightarrow> refineValue s' = None) \<and>
         (\<forall>e. es = [e] \<longrightarrow> refineValue s' = Some (LeafValue (val (d e)))) \<and>
         (1 < length es \<longrightarrow>
            refineValue s' = Some (ListOperator (map (\<lambda>e. val (d e)) es)))"
    using refine_distinct_cases [of es] by auto
next
  fix s :: chart and data :: event and es :: "event list"
  assume "selectedValues s = map Some es"
  from handleDistinctEvent_dense [OF this, of data]
  show "\<exists>s'. handleDistinctEvent s data = Inr s'" by blast
next
  show "emitted (interactions ''String'' letters [click letters ''few'' False 0])
     = Inr (Some (LeafValue (Str ''a'')))"
    by (simp add: scenario_defs handler_defs)
next
  show "emitted (interactions ''String'' letters
      [click letters ''few'' False 0, click letters ''few'' True 1])
     = Inr (Some (ListOperator [Str ''a'', Str ''b'']))"
    by (simp add: scenario_defs handler_defs)
next
  show "emitted (interactions ''String'' letters
      [click letters ''few'' False 0, click letters ''few'' True 1,
       click letters ''few'' False 0])
     = Inr (Some (LeafValue (Str ''a'')))"
    by (simp add: scenario_defs handler_defs)
next
  show "emitted (interactions ''String'' letters
      [click letters ''few'' False 0, click letters ''few'' True 1,
       click letters ''few'' False 0, click letters ''few'' False 0])
     = Inr None"
    by (simp add: scenario_defs handler_defs)
qed

theorem distinct_predicate_by_selection_size_witness:
  "\<exists>s1 s2.
     handleDistinctEvent letters (click letters ''few'' False 0) = Inr s1 \<and>
     selectedValues s1 = map Some [click letters ''few'' False 0] \<and>
     refineValue s1 = Some (LeafValue (val (d (click letters ''few'' False 0)))) \<and>
     handleDistinctEvent s1 (click letters ''few'' True 1) = Inr s2 \<and>
     selectedValues s2 = map Some [click letters ''few'' False 0, click letters ''few'' True 1] \<and>
     refineValue s2 = Some (ListOperator [Str ''a'', Str ''b''])"
proof -
  let ?a = "click letters ''few'' False 0" and ?b = "click letters ''few'' True 1"
  have "\<exists>s1 s2. handleDistinctEvent letters ?a = Inr s1 \<and> selectedValues s1 = map Some [?a] \<and>
          handleDistinctEvent s1 ?b = Inr s2 \<and> selectedValues s2 = map Some [?a, ?b]"
    by (simp add: scenario_defs handler_defs)
  then obtain s1 s2 where one: "handleDistinctEvent letters ?a = Inr s1"
    and sel1: "selectedValues s1 = map Some [?a]"
    and two: "handleDistinctEvent s1 ?b = Inr s2"
    and sel2: "selectedValues s2 = map Some [?a, ?b]"
    by blast
  from distinct_predicate_by_selection_size [THEN conjunct1, rule_format, OF one] sel1
  have r1: "refineValue s1 = Some (LeafValue (val (d ?a)))"
    by auto
  from distinct_predicate_by_selection_size [THEN conjunct1, rule_format, OF two] sel2
  have "refineValue s2 = Some (ListOperator (map (\<lambda>e. val (d e)) [?a, ?b]))"
    by auto
  then have r2: "refineValue s2 = Some (ListOperator [Str ''a'', Str ''b''])"
    by (simp add: scenario_defs)
  show ?thesis using one sel1 r1 two sel2 r2 by blast
qed

section \<open>Range mode\<close>

text \<open>
  Claim C10. In range mode a modifier-click on an empty selection stores the clicked
  element in the second slot only: the array has length 2 and a hole at index 0. Since
  the handler decides emptiness from the first slot, it clears the predicate and removes
  both classes from every element of \<^verbatim>\<open>data.all\<close>, as it does for an empty selection.
\<close>

theorem modifier_click_on_empty_range:
  assumes "selectedValues s = []" and "shiftKey (evt data)"
  shows "\<exists>s'. handleRangeEvent ty s data = Inr s' \<and>
           selectedValues s' = [None, Some data] \<and>
           length (selectedValues s') = 2 \<and>
           first_slot (selectedValues s') = None \<and>
           refineValue s' = None \<and>
           (\<forall>el\<in>set (all_els data). \<not> cls_selected (dom s' el) \<and> \<not> cls_unselected (dom s' el))"
  using assms
  by (simp add: handleRangeEvent_def update_range_def set_second_def first_slot_def
        reset_classes_apply)

theorem modifier_click_on_empty_range_witness:
  "selectedValues histogram = [] \<and> shiftKey (evt (click histogram ''many'' True 2)) \<and>
   (\<exists>s'. handleRangeEvent ''Number'' histogram (click histogram ''many'' True 2) = Inr s' \<and>
      selectedValues s' = [None, Some (click histogram ''many'' True 2)] \<and>
      length (selectedValues s') = 2 \<and>
      first_slot (selectedValues s') = None \<and>
      refineValue s' = None \<and>
      (\<forall>el\<in>set (all_els (click histogram ''many'' True 2)).
         \<not> cls_selected (dom s' el) \<and> \<not> cls_unselected (dom s' el)))"
proof -
  have a: "selectedValues histogram = []"
    by (simp add: histogram_def chart_of_def)
  have b: "shiftKey (evt (click histogram ''many'' True 2))"
    by (simp add: click_def pointer_def)
  show ?thesis
    using a b modifier_click_on_empty_range [OF a b, of "''Number''"] by simp
qed

text \<open>
  Claim C1. In range mode, when the first slot of the selection is filled, the bounds of
  the emitted predicate are the raw values of an element with the least and of an element
  with the greatest comparable value among the selected ones; for the field type Number
  the upper bound is increased by the bin width \<^verbatim>\<open>dx\<close> of the latter element, with the
  addition of JavaScript numbers (the sum of two doubles, rounded to a double), and the
  predicate's \<open>upperInclusive\<close> holds exactly when that bin width is 0. (When the two
  bounds are strictly equal the predicate is the exact value instead, see C3.) The two
  scenarios: on the binned bars 20 and 40, each of width 10, a click and a shift-click
  give the range from 20 to 50, upper bound excluded; on the exact values 5 and 9 they
  give the range from 5 to 9, upper bound included.
\<close>

theorem range_bounds_from_extremes:
  "(\<forall>ty s data s'.
      handleRangeEvent ty s data = Inr s' \<and> first_slot (selectedValues s') \<noteq> None \<longrightarrow>
      (\<exists>es first_el last_el lo hi upper.
         those (selectedValues s') = Some es \<and> first_el \<in> set es \<and> last_el \<in> set es \<and>
         num_key first_el = Some lo \<and> num_key last_el = Some hi \<and>
         (\<forall>e\<in>set es. \<exists>k. num_key e = Some k \<and> lo \<le> k \<and> k \<le> hi) \<and>
         (if ty = ''Number'' then js_add (val (d last_el)) (dx (d last_el)) = Some upper
          else upper = val (d last_el)) \<and>
         (\<forall>v. ty = ''Number'' \<and> val (d last_el) = Num v \<longrightarrow> upper = Num (round_double (v + dx (d last_el)))) \<and>
         refineValue s' =
           Some (if strict_eq (val (d first_el)) upper then LeafValue (val (d first_el))
                 else RangeOp (val (d first_el)) upper (dx (d last_el) = 0)))) \<and>
   emitted (interactions ''Number'' histogram
      [click histogram ''many'' False 0, click histogram ''many'' True 2])
     = Inr (Some (RangeOp (Num 20) (Num 50) False)) \<and>
   emitted (interactions ''Number'' exact_numbers
      [click exact_numbers ''few'' False 0, click exact_numbers ''few'' True 2])
     = Inr (Some (RangeOp (Num 5) (Num 9) True))"
proof (intro conjI allI impI)
  fix ty s data s'
  assume a: "handleRangeEvent ty s data = Inr s' \<and> first_slot (selectedValues s') \<noteq> None"
  from a obtain es ks first_el last_el lo hi cupper p where
    es: "those (selectedValues s') = Some es"
    and f: "first_el \<in> set es" and l: "last_el \<in> set es"
    and lo: "num_key first_el = Some lo" and hi: "num_key last_el = Some hi"
    and between: "\<forall>e\<in>set es. \<exists>k. num_key e = Some k \<and> lo \<le> k \<and> k \<le> hi"
    and p: "refine_range ty first_el last_el = Some p" and r: "refineValue s' = Some p"
    by (auto elim: range_event_anatomy)
  from p obtain upper where
    up: "extend_upper ty (val (d last_el)) (dx (d last_el)) = Some upper"
    and pv: "p = (if strict_eq (val (d first_el)) upper then LeafValue (val (d first_el))
                  else RangeOp (val (d first_el)) upper (dx (d last_el) = 0))"
    by (auto simp: refine_range_def split: option.splits if_splits)
  have u1: "if ty = ''Number'' then js_add (val (d last_el)) (dx (d last_el)) = Some upper
            else upper = val (d last_el)"
    using up by (simp add: extend_upper_def split: if_splits)
  have u2: "\<forall>v. ty = ''Number'' \<and> val (d last_el) = Num v \<longrightarrow> upper = Num (round_double (v + dx (d last_el)))"
    using up by (auto simp: extend_upper_def double_sum_def Let_def split: if_splits)
  show "\<exists>es first_el last_el lo hi upper.
         those (selectedValues s') = Some es \<and> first_el \<in> set es \<and> last_el \<in> set es \<and>
         num_key first_el = Some lo \<and> num_key last_el = Some hi \<and>
         (\<forall>e\<in>set es. \<exists>k. num_key e = Some k \<and> lo \<le> k \<and> k \<le> hi) \<and>
         (if ty = ''Number'' then js_add (val (d last_el)) (dx (d last_el)) = Some upper
          else upper = val (d last_el)) \<and>
         (\<forall>v. ty = ''Number'' \<and> val (d last_el) = Num v \<longrightarrow> upper = Num (round_double (v + dx (d last_el)))) \<and>
         refineValue s' =
           Some (if strict_eq (val (d first_el)) upper then LeafValue (val (d first_el))
                 else RangeOp (val (d first_el)) upper (dx (d last_el) = 0))"
    using es f l lo hi between u1 u2 r pv by blast
next
  show "emitted (interactions ''Number'' histogram
      [click histogram ''many'' False 0, click histogram ''many'' True 2])
     = Inr (Some (RangeOp (Num 20) (Num 50) False))"
    by (simp add: scenario_defs handler_defs)
next
  show "emitted (interactions ''Number'' exact_numbers
      [click exact_numbers ''few'' False 0, click exact_numbers ''few'' True 2])
     = Inr (Some (RangeOp (Num 5) (Num 9) True))"
    by (simp add: scenario_defs handler_defs)
qed


theorem range_bounds_from_extremes_witness:
  "\<exists>s'. handleRangeEvent ''Number'' histogram (click histogram ''many'' False 0) = Inr s' \<and>
      first_slot (selectedValues s') \<noteq> None \<and>
      (\<exists>es first_el last_el lo hi upper.
         those (selectedValues s') = Some es \<and> first_el \<in> set es \<and> last_el \<in> set es \<and>
         num_key first_el = Some lo \<and> num_key last_el = Some hi \<and>
         (\<forall>e\<in>set es. \<exists>k. num_key e = Some k \<and> lo \<le> k \<and> k \<le> hi) \<and>
         (if ''Number'' = ''Number'' then js_add (val (d last_el)) (dx (d last_el)) = Some upper
          else upper = val (d last_el)) \<and>
         (\<forall>v. ''Number'' = ''Number'' \<and> val (d last_el) = Num v \<longrightarrow> upper = Num (round_double (v + dx (d last_el)))) \<and>
         refineValue s' =
           Some (if strict_eq (val (d first_el)) upper then LeafValue (val (d first_el))
                 else RangeOp (val (d first_el)) upper (dx (d last_el) = 0)))"
proof -
  have "\<exists>s'. handleRangeEvent ''Number'' histogram (click histogram ''many'' False 0) = Inr s' \<and>
          first_slot (selectedValues s') \<noteq> None"
    by (simp add: scenario_defs handler_defs)
  then obtain s' where
    run: "handleRangeEvent ''Number'' histogram (click histogram ''many'' False 0) = Inr s' \<and>
          first_slot (selectedValues s') \<noteq> None"
    by blast
  from range_bounds_from_extremes [THEN conjunct1, rule_format, OF run] run
  show ?thesis by blast
qed

text \<open>
  Claim C2, as amended. Let A and B be two elements whose comparable values differ, on a
  chart whose first bound, if any, carries neither A's nor B's label. Clicking A and then
  modifier-clicking B emits the same predicate, hence the same lower and upper bound, and
  leaves the same classes on every element as clicking B and then modifier-clicking A;
  only the order of the two stored entries differs.
\<close>

theorem range_bounds_order_independent:
  assumes fresh: "\<forall>e. first_slot (selectedValues s) = Some e \<longrightarrow>
                    label (d e) \<noteq> label (d a) \<and> label (d e) \<noteq> label (d b)"
    and plain: "\<not> shiftKey (evt a) \<and> \<not> shiftKey (evt b)"
    and shifted: "shiftKey (evt a') \<and> d a' = d a \<and> shiftKey (evt b') \<and> d b' = d b"
    and same_chart: "all_els b = all_els a \<and> all_els a' = all_els a \<and> all_els b' = all_els a"
    and keys: "num_key a = Some ka \<and> num_key b = Some kb \<and> ka \<noteq> kb"
    and ab: "handleRangeEvent ty s a = Inr s1 \<and> handleRangeEvent ty s1 b' = Inr s2"
    and ba: "handleRangeEvent ty s b = Inr t1 \<and> handleRangeEvent ty t1 a' = Inr t2"
  shows "refineValue s2 = refineValue t2 \<and> dom s2 = dom t2 \<and>
         selectedValues s2 = [Some a, Some b'] \<and> selectedValues t2 = [Some b, Some a']"
proof -
  have s1: "selectedValues s1 = [Some a]"
    using handleRangeEvent_selection [of ty s a s1] ab update_range_click [of a "selectedValues s"]
      fresh plain by auto
  have t1: "selectedValues t1 = [Some b]"
    using handleRangeEvent_selection [of ty s b t1] ba update_range_click [of b "selectedValues s"]
      fresh plain by auto
  have u2: "update_range (selectedValues s1) b' = [Some a, Some b']"
    using s1 shifted by (simp add: update_range_def set_second_def)
  have v2: "update_range (selectedValues t1) a' = [Some b, Some a']"
    using t1 shifted by (simp add: update_range_def set_second_def)
  define m where "m = reset_classes True (all_els a) (dom s)"
  have m1: "reset_classes True (all_els b') (dom s1) = m"
    using handleRangeEvent_reset [of ty s a s1 True] ab same_chart unfolding m_def by simp
  have m2: "reset_classes True (all_els a') (dom t1) = m"
    using handleRangeEvent_reset [of ty s b t1 True] ba same_chart unfolding m_def by simp
  have r1: "resolve_range ty [Some a, Some b'] (all_els a) m = Inr s2"
    using handleRangeEvent_resolve [of ty s1 b' s2] ab u2 m1 same_chart
    by (simp add: first_slot_def)
  have r2: "resolve_range ty [Some b, Some a'] (all_els a) m = Inr t2"
    using handleRangeEvent_resolve [of ty t1 a' t2] ba v2 m2 same_chart
    by (simp add: first_slot_def)
  have "refineValue s2 = refineValue t2 \<and> dom s2 = dom t2"
    using resolve_range_swap [of a ka b kb a' b' ty "all_els a" m s2 t2] keys shifted r1 r2
    by blast
  moreover have "selectedValues s2 = [Some a, Some b']"
    using handleRangeEvent_selection [of ty s1 b' s2] ab u2 by simp
  moreover have "selectedValues t2 = [Some b, Some a']"
    using handleRangeEvent_selection [of ty t1 a' t2] ba v2 by simp
  ultimately show ?thesis by blast
qed

theorem range_bounds_order_independent_witness:
  "\<exists>s1 s2 t1 t2.
     (\<forall>e. first_slot (selectedValues histogram) = Some e \<longrightarrow>
        label (d e) \<noteq> label (d (click histogram ''many'' False 0)) \<and>
        label (d e) \<noteq> label (d (click histogram ''many'' False 2))) \<and>
     \<not> shiftKey (evt (click histogram ''many'' False 0)) \<and>
     \<not> shiftKey (evt (click histogram ''many'' False 2)) \<and>
     shiftKey (evt (click histogram ''many'' True 0)) \<and>
     shiftKey (evt (click histogram ''many'' True 2)) \<and>
     num_key (click histogram ''many'' False 0) = Some 20 \<and>
     num_key (click histogram ''many'' False 2) = Some 40 \<and>
     handleRangeEvent ''Number'' histogram (click histogram ''many'' False 0) = Inr s1 \<and>
     handleRangeEvent ''Number'' s1 (click histogram ''many'' True 2) = Inr s2 \<and>
     handleRangeEvent ''Number'' histogram (click histogram ''many'' False 2) = Inr t1 \<and>
     handleRangeEvent ''Number'' t1 (click histogram ''many'' True 0) = Inr t2 \<and>
     refineValue s2 = Some (RangeOp (Num 20) (Num 50) False) \<and>
     refineValue s2 = refineValue t2 \<and> dom s2 = dom t2 \<and>
     selectedValues s2 = [Some (click histogram ''many'' False 0), Some (click histogram ''many'' True 2)] \<and>
     selectedValues t2 = [Some (click histogram ''many'' False 2), Some (click histogram ''many'' True 0)]"
proof -
  let ?a = "click histogram ''many'' False 0" and ?b = "click histogram ''many'' False 2"
  let ?a' = "click histogram ''many'' True 0" and ?b' = "click histogram ''many'' True 2"
  have fresh: "\<forall>e. first_slot (selectedValues histogram) = Some e \<longrightarrow>
                 label (d e) \<noteq> label (d ?a) \<and> label (d e) \<noteq> label (d ?b)"
    by (simp add: scenario_defs first_slot_def)
  have plain: "\<not> shiftKey (evt ?a) \<and> \<not> shiftKey (evt ?b)"
    by (simp add: scenario_defs)
  have shifted: "shiftKey (evt ?a') \<and> d ?a' = d ?a \<and> shiftKey (evt ?b') \<and> d ?b' = d ?b"
    by (simp add: scenario_defs)
  have same_chart: "all_els ?b = all_els ?a \<and> all_els ?a' = all_els ?a \<and> all_els ?b' = all_els ?a"
    by (simp add: scenario_defs)
  have keys: "num_key ?a = Some 20 \<and> num_key ?b = Some 40 \<and> (20::rat) \<noteq> 40"
    by (simp add: scenario_defs num_key_def)
  have "\<exists>s1 s2. handleRangeEvent ''Number'' histogram ?a = Inr s1 \<and>
          handleRangeEvent ''Number'' s1 ?b' = Inr s2 \<and>
          refineValue s2 = Some (RangeOp (Num 20) (Num 50) False)"
    by (simp add: scenario_defs handler_defs)
  then obtain s1 s2 where
    ab: "handleRangeEvent ''Number'' histogram ?a = Inr s1 \<and>
         handleRangeEvent ''Number'' s1 ?b' = Inr s2"
    and r: "refineValue s2 = Some (RangeOp (Num 20) (Num 50) False)"
    by blast
  have "\<exists>t1 t2. handleRangeEvent ''Number'' histogram ?b = Inr t1 \<and>
          handleRangeEvent ''Number'' t1 ?a' = Inr t2"
    by (simp add: scenario_defs handler_defs)
  then obtain t1 t2 where
    ba: "handleRangeEvent ''Number'' histogram ?b = Inr t1 \<and>
         handleRangeEvent ''Number'' t1 ?a' = Inr t2"
    by blast
  from range_bounds_order_independent [OF fresh plain shifted same_chart keys ab ba]
    fresh plain shifted keys ab ba r
  show ?thesis by blast
qed

text \<open>
  The claim C2 as it was stated asks only that the values of A and B differ. Two
  different identifiers created in the same second have different values and the same
  comparable value, and then \<^verbatim>\<open>_.min\<close> and \<^verbatim>\<open>_.max\<close> both return the element clicked
  first: lower and upper bound are A's identifier in one order and B's in the other.
\<close>

theorem same_second_identifiers_counterexample:
  "val (d (click identifiers ''date'' False 0)) = ObjectID 1 100 7 \<and>
   val (d (click identifiers ''date'' False 1)) = ObjectID 2 100 8 \<and>
   \<not> strict_eq (ObjectID 1 100 7) (ObjectID 2 100 8) \<and>
   emitted (interactions ''ObjectID'' identifiers
      [click identifiers ''date'' False 0, click identifiers ''date'' True 1])
     = Inr (Some (LeafValue (ObjectID 1 100 7))) \<and>
   emitted (interactions ''ObjectID'' identifiers
      [click identifiers ''date'' False 1, click identifiers ''date'' True 0])
     = Inr (Some (LeafValue (ObjectID 2 100 8)))"
  by (simp add: scenario_defs handler_defs)

text \<open>
  Claim C3. In range mode, whenever the lower bound recomputed from the raw values is
  strictly equal (\<^verbatim>\<open>===\<close>) to the upper bound, after the extension by the bin width for
  Number fields, the emitted predicate is the exact value of that bound; and no emitted
  range has strictly equal bounds. This holds for every selection, field type and value.
\<close>

theorem degenerate_range_is_exact_value:
  assumes "handleRangeEvent ty s data = Inr s'"
  shows "(\<forall>l u i. refineValue s' = Some (RangeOp l u i) \<longrightarrow> \<not> strict_eq l u) \<and>
         (\<forall>es ks first_el last_el upper.
            first_slot (selectedValues s') \<noteq> None \<and>
            those (selectedValues s') = Some es \<and> keyed es = Some ks \<and>
            extremum (\<lambda>x y. x < y) ks = Inr first_el \<and>
            extremum (\<lambda>x y. x > y) ks = Inr last_el \<and>
            extend_upper ty (val (d last_el)) (dx (d last_el)) = Some upper \<and>
            strict_eq (val (d first_el)) upper \<longrightarrow>
            refineValue s' = Some (LeafValue (val (d first_el))))"
proof (cases "first_slot (selectedValues s')")
  case None
  have "selectedValues s' = update_range (selectedValues s) data"
    using assms by (auto simp: handleRangeEvent_def Let_def split: option.splits dest: resolve_range_Inr)
  then have "refineValue s' = None"
    using assms None by (auto simp: handleRangeEvent_def Let_def)
  then show ?thesis using None by simp
next
  case (Some e)
  then have ne: "first_slot (selectedValues s') \<noteq> None" by simp
  from range_event_anatomy [OF assms ne]
  obtain es ks first_el last_el p where
    es: "those (selectedValues s') = Some es" and ks: "keyed es = Some ks"
    and mn: "extremum (\<lambda>x y. x < y) ks = Inr first_el"
    and mx: "extremum (\<lambda>x y. x > y) ks = Inr last_el"
    and p: "refine_range ty first_el last_el = Some p" and r: "refineValue s' = Some p"
    by metis
  from p obtain upper where
    up: "extend_upper ty (val (d last_el)) (dx (d last_el)) = Some upper"
    and pv: "p = (if strict_eq (val (d first_el)) upper then LeafValue (val (d first_el))
                  else RangeOp (val (d first_el)) upper (dx (d last_el) = 0))"
    by (auto simp: refine_range_def split: option.splits if_splits)
  have 1: "\<forall>l u i. refineValue s' = Some (RangeOp l u i) \<longrightarrow> \<not> strict_eq l u"
    using r pv by (auto split: if_splits)
  have 2: "\<forall>es' ks' f' l' upper'.
            first_slot (selectedValues s') \<noteq> None \<and>
            those (selectedValues s') = Some es' \<and> keyed es' = Some ks' \<and>
            extremum (\<lambda>x y. x < y) ks' = Inr f' \<and>
            extremum (\<lambda>x y. x > y) ks' = Inr l' \<and>
            extend_upper ty (val (d l')) (dx (d l')) = Some upper' \<and>
            strict_eq (val (d f')) upper' \<longrightarrow>
            refineValue s' = Some (LeafValue (val (d f')))"
    using es ks mn mx up pv r by auto
  show ?thesis using 1 2 by blast
qed


theorem degenerate_range_is_exact_value_witness:
  "\<exists>s'. handleRangeEvent ''Number'' exact_numbers (click exact_numbers ''few'' False 0) = Inr s' \<and>
     first_slot (selectedValues s') \<noteq> None \<and>
     those (selectedValues s') = Some [click exact_numbers ''few'' False 0] \<and>
     keyed [click exact_numbers ''few'' False 0] = Some [(click exact_numbers ''few'' False 0, 5)] \<and>
     extremum (\<lambda>x y. x < y) [(click exact_numbers ''few'' False 0, 5)]
       = Inr (click exact_numbers ''few'' False 0) \<and>
     extremum (\<lambda>x y. x > y) [(click exact_numbers ''few'' False 0, 5)]
       = Inr (click exact_numbers ''few'' False 0) \<and>
     extend_upper ''Number'' (val (d (click exact_numbers ''few'' False 0)))
       (dx (d (click exact_numbers ''few'' False 0))) = Some (Num 5) \<and>
     strict_eq (val (d (click exact_numbers ''few'' False 0))) (Num 5) \<and>
     refineValue s' = Some (LeafValue (val (d (click exact_numbers ''few'' False 0))))"
proof -
  let ?c = "click exact_numbers ''few'' False 0"
  have "\<exists>s'. handleRangeEvent ''Number'' exact_numbers ?c = Inr s' \<and>
          first_slot (selectedValues s') \<noteq> None \<and> those (selectedValues s') = Some [?c]"
    by (simp add: scenario_defs handler_defs)
  then obtain s' where run: "handleRangeEvent ''Number'' exact_numbers ?c = Inr s'"
    and ne: "first_slot (selectedValues s') \<noteq> None"
    and es: "those (selectedValues s') = Some [?c]"
    by blast
  have ks: "keyed [?c] = Some [(?c, 5)]"
    by (simp add: scenario_defs keyed_def num_key_def)
  have mn: "extremum (\<lambda>x y. x < y) [(?c, 5)] = Inr ?c"
    by (simp add: extremum_def)
  have mx: "extremum (\<lambda>x y. x > y) [(?c, 5)] = Inr ?c"
    by (simp add: extremum_def)
  have up: "extend_upper ''Number'' (val (d ?c)) (dx (d ?c)) = Some (Num 5)"
    by (simp add: scenario_defs extend_upper_def double_sum_def round_double_scenarios)
  have eq: "strict_eq (val (d ?c)) (Num 5)"
    by (simp add: scenario_defs)
  have "refineValue s' = Some (LeafValue (val (d ?c)))"
    using degenerate_range_is_exact_value [OF run, THEN conjunct2, rule_format,
        of "[?c]" "[(?c, 5)]" ?c ?c "Num 5"] ne es ks mn mx up eq
    by blast
  then show ?thesis using run ne es ks mn mx up eq by blast
qed

text \<open>
  Claim C4, as amended. In range mode, when the first slot of the selection is filled, an
  element of \<^verbatim>\<open>data.all\<close> gets the class \<^verbatim>\<open>selected\<close> and loses \<^verbatim>\<open>unselected\<close> exactly
  when its comparable value \<open>v\<close> satisfies \<open>lower \<le> v\<close> and \<open>v \<le> upper\<close> (if the last
  element's bin width is 0) or \<open>v < upper\<close> (otherwise); every other element of
  \<^verbatim>\<open>data.all\<close> gets \<^verbatim>\<open>unselected\<close> and no \<^verbatim>\<open>selected\<close>; elements outside \<^verbatim>\<open>data.all\<close> keep
  their classes. Here \<open>upper\<close> is the greatest comparable value of the selection, for
  Number fields extended by the last bin's width with the addition of JavaScript numbers
  (the sum of two doubles, rounded to a double). In particular, for a binned Number range
  an element whose value equals this extended upper bound is not selected, and an element
  whose value lies below it by some \<open>eps\<close> above 0, and not below \<open>lower\<close>, is selected.
\<close>

theorem range_classification:
  assumes "handleRangeEvent ty s data = Inr s'" and "first_slot (selectedValues s') \<noteq> None"
  shows "\<exists>es first_el last_el lower hi upper.
      those (selectedValues s') = Some es \<and> first_el \<in> set es \<and> last_el \<in> set es \<and>
      num_key first_el = Some lower \<and> num_key last_el = Some hi \<and>
      (\<forall>e\<in>set es. \<exists>k. num_key e = Some k \<and> lower \<le> k \<and> k \<le> hi) \<and>
      upper = (if ty = ''Number'' then round_double (hi + dx (d last_el)) else hi) \<and>
      (\<forall>el. el \<notin> set (all_els data) \<longrightarrow> dom s' el = dom s el) \<and>
      (\<forall>el\<in>set (all_els data).
         \<exists>v. to_number (getComparableValue (bound (dom s el))) = Some v \<and>
           cls_selected (dom s' el)
             = (lower \<le> v \<and> (if dx (d last_el) = 0 then v \<le> upper else v < upper)) \<and>
           cls_unselected (dom s' el)
             = (\<not> (lower \<le> v \<and> (if dx (d last_el) = 0 then v \<le> upper else v < upper))) \<and>
           (ty = ''Number'' \<and> dx (d last_el) \<noteq> 0 \<and> v = upper \<longrightarrow>
              \<not> cls_selected (dom s' el) \<and> cls_unselected (dom s' el)) \<and>
           (\<forall>eps. ty = ''Number'' \<and> 0 < eps \<and> eps \<le> upper - lower \<and>
                   v = upper - eps \<longrightarrow>
              cls_selected (dom s' el) \<and> \<not> cls_unselected (dom s' el)))"
proof -
  from range_event_anatomy [OF assms]
  obtain es first_el last_el lo hi cupper where
    es: "those (selectedValues s') = Some es"
    and f: "first_el \<in> set es" and l: "last_el \<in> set es"
    and lo: "num_key first_el = Some lo" and hi: "num_key last_el = Some hi"
    and between: "\<forall>e\<in>set es. \<exists>k. num_key e = Some k \<and> lo \<le> k \<and> k \<le> hi"
    and cu: "to_number cupper = Some (if ty = ''Number'' then round_double (hi + dx (d last_el)) else hi)"
    and cl: "classify (getComparableValue (d first_el)) cupper (dx (d last_el) = 0) (all_els data)
           (reset_classes True (all_els data) (dom s)) = Some (dom s')"
    by metis
  define upper where "upper = (if ty = ''Number'' then round_double (hi + dx (d last_el)) else hi)"
  define m where "m = reset_classes True (all_els data) (dom s)"
  have lo': "to_number (getComparableValue (d first_el)) = Some lo"
    using lo by (simp add: num_key_def)
  have outside: "dom s' el = dom s el" if "el \<notin> set (all_els data)" for el
    using classify_apply [OF cl, of el] that by (simp add: reset_classes_apply)
  have inside: "\<exists>v. to_number (getComparableValue (bound (dom s el))) = Some v \<and>
           cls_selected (dom s' el)
             = (lo \<le> v \<and> (if dx (d last_el) = 0 then v \<le> upper else v < upper)) \<and>
           cls_unselected (dom s' el)
             = (\<not> (lo \<le> v \<and> (if dx (d last_el) = 0 then v \<le> upper else v < upper)))"
    if el: "el \<in> set (all_els data)" for el
  proof -
    have bnd: "bound (m el) = bound (dom s el)"
      unfolding m_def by (rule reset_classes_bound)
    from classify_defined [OF cl el] obtain b where
      "in_range (getComparableValue (d first_el)) cupper (dx (d last_el) = 0)
         (getComparableValue (bound (dom s el))) = Some b"
      using bnd unfolding m_def by auto
    from in_range_defined [OF this] obtain v where
      v: "to_number (getComparableValue (bound (dom s el))) = Some v" by blast
    have ir: "in_range (getComparableValue (d first_el)) cupper (dx (d last_el) = 0)
         (getComparableValue (bound (dom s el)))
         = Some (lo \<le> v \<and> (if dx (d last_el) = 0 then v \<le> upper else v < upper))"
      using in_range_number [OF lo' cu v] unfolding upper_def by simp
    have "dom s' el =
        (if lo \<le> v \<and> (if dx (d last_el) = 0 then v \<le> upper else v < upper)
         then (m el)\<lparr>cls_selected := True, cls_unselected := False\<rparr> else m el)"
      using classify_apply [OF cl, of el] el ir bnd unfolding m_def by simp
    moreover have "m el = (dom s el)\<lparr>cls_selected := False, cls_unselected := True\<rparr>"
      unfolding m_def using el by (simp add: reset_classes_apply)
    ultimately show ?thesis using v by auto
  qed
  have particular: "\<exists>v. to_number (getComparableValue (bound (dom s el))) = Some v \<and>
           cls_selected (dom s' el)
             = (lo \<le> v \<and> (if dx (d last_el) = 0 then v \<le> upper else v < upper)) \<and>
           cls_unselected (dom s' el)
             = (\<not> (lo \<le> v \<and> (if dx (d last_el) = 0 then v \<le> upper else v < upper))) \<and>
           (ty = ''Number'' \<and> dx (d last_el) \<noteq> 0 \<and> v = upper \<longrightarrow>
              \<not> cls_selected (dom s' el) \<and> cls_unselected (dom s' el)) \<and>
           (\<forall>eps. ty = ''Number'' \<and> 0 < eps \<and> eps \<le> upper - lo \<and>
                   v = upper - eps \<longrightarrow>
              cls_selected (dom s' el) \<and> \<not> cls_unselected (dom s' el))"
    if el: "el \<in> set (all_els data)" for el
  proof -
    from inside [OF el] obtain v where
      v: "to_number (getComparableValue (bound (dom s el))) = Some v"
      and sel: "cls_selected (dom s' el)
             = (lo \<le> v \<and> (if dx (d last_el) = 0 then v \<le> upper else v < upper))"
      and uns: "cls_unselected (dom s' el)
             = (\<not> (lo \<le> v \<and> (if dx (d last_el) = 0 then v \<le> upper else v < upper)))"
      by blast
    have edge: "ty = ''Number'' \<and> dx (d last_el) \<noteq> 0 \<and> v = upper \<longrightarrow>
              \<not> cls_selected (dom s' el) \<and> cls_unselected (dom s' el)"
      using sel uns by simp
    have below: "\<forall>eps. ty = ''Number'' \<and> 0 < eps \<and> eps \<le> upper - lo \<and>
                   v = upper - eps \<longrightarrow>
              cls_selected (dom s' el) \<and> \<not> cls_unselected (dom s' el)"
      using sel uns by auto
    show ?thesis using v sel uns edge below by blast
  qed
  show ?thesis
    using es f l lo hi between upper_def outside particular by blast
qed

theorem range_classification_witness:
  "\<exists>s1 s'.
     handleRangeEvent ''Number'' histogram (click histogram ''many'' False 0) = Inr s1 \<and>
     handleRangeEvent ''Number'' s1 (click histogram ''many'' True 1) = Inr s' \<and>
     first_slot (selectedValues s') \<noteq> None \<and>
     cls_selected (dom s' 0) \<and> cls_selected (dom s' 1) \<and>
     \<not> cls_selected (dom s' 2) \<and> cls_unselected (dom s' 2) \<and>
     (\<exists>es first_el last_el lower hi upper.
        those (selectedValues s') = Some es \<and> first_el \<in> set es \<and> last_el \<in> set es \<and>
        num_key first_el = Some lower \<and> num_key last_el = Some hi \<and>
        (\<forall>e\<in>set es. \<exists>k. num_key e = Some k \<and> lower \<le> k \<and> k \<le> hi) \<and>
        upper = (if ''Number'' = ''Number'' then round_double (hi + dx (d last_el)) else hi) \<and>
        (\<forall>el. el \<notin> set (all_els (click histogram ''many'' True 1)) \<longrightarrow> dom s' el = dom s1 el) \<and>
        (\<forall>el\<in>set (all_els (click histogram ''many'' True 1)).
           \<exists>v. to_number (getComparableValue (bound (dom s1 el))) = Some v \<and>
             cls_selected (dom s' el)
               = (lower \<le> v \<and> (if dx (d last_el) = 0 then v \<le> upper else v < upper)) \<and>
             cls_unselected (dom s' el)
               = (\<not> (lower \<le> v \<and> (if dx (d last_el) = 0 then v \<le> upper else v < upper))) \<and>
             (''Number'' = ''Number'' \<and> dx (d last_el) \<noteq> 0 \<and> v = upper \<longrightarrow>
                \<not> cls_selected (dom s' el) \<and> cls_unselected (dom s' el)) \<and>
             (\<forall>eps. ''Number'' = ''Number'' \<and> 0 < eps \<and> eps \<le> upper - lower \<and>
                     v = upper - eps \<longrightarrow>
                cls_selected (dom s' el) \<and> \<not> cls_unselected (dom s' el))))"
proof -
  have "\<exists>s1 s'.
     handleRangeEvent ''Number'' histogram (click histogram ''many'' False 0) = Inr s1 \<and>
     handleRangeEvent ''Number'' s1 (click histogram ''many'' True 1) = Inr s' \<and>
     first_slot (selectedValues s') \<noteq> None \<and>
     cls_selected (dom s' 0) \<and> cls_selected (dom s' 1) \<and>
     \<not> cls_selected (dom s' 2) \<and> cls_unselected (dom s' 2)"
    by (simp add: scenario_defs handler_defs)
  then obtain s1 s' where
    one: "handleRangeEvent ''Number'' histogram (click histogram ''many'' False 0) = Inr s1"
    and two: "handleRangeEvent ''Number'' s1 (click histogram ''many'' True 1) = Inr s'"
    and ne: "first_slot (selectedValues s') \<noteq> None"
    and cls: "cls_selected (dom s' 0)" "cls_selected (dom s' 1)"
      "\<not> cls_selected (dom s' 2)" "cls_unselected (dom s' 2)"
    by blast
  from range_classification [OF two ne] one two ne cls
  show ?thesis by blast
qed

text \<open>
  The claim C4 as it was stated excludes the element whose value equals the upper bound
  computed without the bin extension. On the bars 20, 30, 40 and 50 of width 10, after a
  click on 20 and a shift-click on 40, that value is 40, the value of the bar clicked
  last: the bar is selected and not dimmed.
\<close>

theorem upper_without_extension_counterexample:
  "getComparableValue (d (click histogram ''many'' True 2)) = Num 40 \<and>
   dx (d (click histogram ''many'' True 2)) = 10 \<and>
   getComparableValue (bound (dom histogram 2)) = Num 40 \<and>
   emitted (interactions ''Number'' histogram
      [click histogram ''many'' False 0, click histogram ''many'' True 2])
     = Inr (Some (RangeOp (Num 20) (Num 50) False)) \<and>
   classes_of (interactions ''Number'' histogram
      [click histogram ''many'' False 0, click histogram ''many'' True 2]) 2
     = Inr (True, False)"
  by (simp add: scenario_defs handler_defs)

text \<open>
  Where the addition rounds, the handler follows the rounded sum. A click on the bar at
  \<open>2 ^ 53\<close> of width 1 gives the upper bound \<open>2 ^ 53\<close> again: the predicate is the exact
  value and the clicked bar itself is dimmed. A click on the bar at \<^verbatim>\<open>0.1\<close> of width
  \<^verbatim>\<open>0.4\<close> gives the upper bound \<^verbatim>\<open>0.5\<close>, so the next bar, at \<^verbatim>\<open>0.5\<close>, is dimmed.
\<close>

lemma tenths_values:
  "round_double (1 / 10) = 3602879701896397 / 36028797018963968"
  "round_double (2 / 5) = 3602879701896397 / 9007199254740992"
  "round_double (9 / 10) = 8106479329266893 / 9007199254740992"
  "round_double (13 / 10) = 5854679515581645 / 4503599627370496"
  "round_double (18014398509481985 / 36028797018963968) = 1 / 2"
  by code_simp+

lemma rounded_upper_bound:
  "emitted (interactions ''Number'' wide_bars [click wide_bars ''many'' False 0])
     = Inr (Some (LeafValue (Num 9007199254740992))) \<and>
   classes_of (interactions ''Number'' wide_bars [click wide_bars ''many'' False 0]) 0
     = Inr (False, True) \<and>
   emitted (interactions ''Number'' tenths [click tenths ''many'' False 0])
     = Inr (Some (RangeOp (Num (3602879701896397 / 36028797018963968)) (Num (1 / 2)) False)) \<and>
   classes_of (interactions ''Number'' tenths [click tenths ''many'' False 0]) 0
     = Inr (True, False) \<and>
   classes_of (interactions ''Number'' tenths [click tenths ''many'' False 0]) 1
     = Inr (False, True)"
  by (simp add: wide_bars_def tenths_def scenario_defs handler_defs tenths_values(5)
        round_double_inexact(4))

end
